theory Spec2Isabelle
  imports Complex_Main
begin

section \<open>Data model\<close>

text \<open>
  The dice expression engine of \<^verbatim>\<open>dice-utils.ts\<close> (the revision with parentheses).
  JavaScript numbers are modelled as exact rationals together with the not-a-number value.
  The model covers the runs in which every literal and every intermediate value is a finite
  double: it has no infinities (a literal of more than 308 digits, which \<^verbatim>\<open>parseFloat\<close>
  reads as \<^verbatim>\<open>Infinity\<close>, is outside it, and so are the \<^verbatim>\<open>NaN\<close> of \<^verbatim>\<open>Infinity * 0\<close> and of
  \<^verbatim>\<open>Infinity - Infinity\<close>), and the arithmetic on finite values is exact, without the rounding
  of IEEE doubles. Strings are lists of 8-bit characters, the code units from U+0000 to
  U+00FF.
\<close>

datatype operator = Plus | Minus | Times | Divide

datatype paren = LParen | RParen

text \<open>\<^verbatim>\<open>CalculationTerm = DiceTerm | NumberTerm\<close>; the count and the sides of a dice term
  are integers (the tokenizer reads them with \<^verbatim>\<open>parseInt\<close>), the value of a number term is a
  finite number (the tokenizer reads it with \<^verbatim>\<open>parseFloat\<close> from a digit string).\<close>

datatype CalculationTerm =
    DiceTerm (count: int) (sides: int)
  | NumberTerm (number_value: rat)

datatype ParsedTerm =
    Operand CalculationTerm
  | OperatorTerm operator
  | ParenthesisTerm paren

datatype jsnum = NaN | Num rat

section \<open>Tokenizer\<close>

text \<open>The class \<^verbatim>\<open>\d\<close>.\<close>

definition isDigit :: "char \<Rightarrow> bool" where
  "isDigit c = (c \<in> set ''0123456789'')"

text \<open>The class \<^verbatim>\<open>\s\<close> on these code units: tab, line feed, vertical tab, form feed,
  carriage return, space and the no-break space U+00A0.\<close>

definition isSpace :: "char \<Rightarrow> bool" where
  "isSpace c =
     (c \<in> set [CHR '' '', CHR 0x09, CHR 0x0A, CHR 0x0B, CHR 0x0C, CHR 0x0D, CHR 0xA0])"

text \<open>\<^verbatim>\<open>toLowerCase\<close> on one code unit: the letters A to Z, and the capital letters U+00C0 to
  U+00DE but for the multiplication sign U+00D7, move up by 32.\<close>

definition toLowerChar :: "char \<Rightarrow> char" where
  "toLowerChar c =
     (let n = (of_char c :: nat) in
      if (65 \<le> n \<and> n \<le> 90) \<or> (192 \<le> n \<and> n \<le> 222 \<and> n \<noteq> 215) then char_of (n + 32) else c)"

text \<open>\<^verbatim>\<open>formula.replace(/\s+/g, '').toLowerCase()\<close>\<close>

definition cleanFormula :: "string \<Rightarrow> string" where
  "cleanFormula formula = map toLowerChar (filter (\<lambda>c. \<not> isSpace c) formula)"

text \<open>
  \<^verbatim>\<open>cleanFormula.match(/(\d+d\d+|\d+\.\d+|\d+|[+\-*/()])/g) ?? []\<close>: all matches from left to
  right. \<^verbatim>\<open>singles\<close> is the character class of the last alternative. At a digit the three
  digit alternatives are tried in order (each \<^verbatim>\<open>\d+\<close> is greedy, and giving digits back
  never helps the next character to match); at a character of the class the last
  alternative matches that character; any other character matches nothing and the scan
  moves past it.
\<close>

function regexMatch :: "string \<Rightarrow> string \<Rightarrow> string list" where
  "regexMatch singles [] = []"
| "regexMatch singles (c # cs) =
     (if isDigit c then
        (let ds = takeWhile isDigit (c # cs); rest = dropWhile isDigit (c # cs) in
         case rest of
           [] \<Rightarrow> [ds]
         | r # rs \<Rightarrow>
             (let ds2 = takeWhile isDigit rs; rest2 = dropWhile isDigit rs in
              if (r = CHR ''d'' \<or> r = CHR ''.'') \<and> ds2 \<noteq> []
              then (ds @ r # ds2) # regexMatch singles rest2
              else ds # regexMatch singles rest))
      else if c \<in> set singles then [c] # regexMatch singles cs
      else regexMatch singles cs)"
  by pat_completeness auto
termination
proof (relation "measure (\<lambda>(singles, s). length s)", goal_cases)
  case 1
  show ?case by simp
next
  case (2 singles c cs ds rest r rs ds2 rest2)
  have a: "length (dropWhile isDigit rs) \<le> length rs"
    by (rule length_dropWhile_le)
  have "length (r # rs) \<le> length (c # cs)"
    using 2 length_dropWhile_le [of isDigit "c # cs"] by simp
  then show ?case using a 2 by simp
next
  case (3 singles c cs ds rest r rs ds2 rest2)
  have "length (dropWhile isDigit cs) \<le> length cs"
    by (rule length_dropWhile_le)
  then show ?case using 3 by simp
next
  case 4
  show ?case by simp
next
  case 5
  show ?case by simp
qed

text \<open>
  The test \<^verbatim>\<open>prevToken === null || ['(','+','-','*','/'].includes(prevToken)\<close> of the
  sign-folding loop. \<^verbatim>\<open>first\<close> is \<^verbatim>\<open>i = 0\<close> (where \<^verbatim>\<open>prevToken\<close> is \<^verbatim>\<open>null\<close>); afterwards
  \<^verbatim>\<open>prevToken\<close> is the last processed token (\<^verbatim>\<open>undefined\<close>, which is in no list, when nothing
  was processed yet).
\<close>

definition signPosition :: "bool \<Rightarrow> string list \<Rightarrow> bool" where
  "signPosition first processed =
     (first \<or> (processed \<noteq> [] \<and> last processed \<in> set [''('', ''+'', ''-'', ''*'', ''/'']))"

text \<open>
  The sign-folding loop. A sign in sign position whose next token starts with a digit is
  glued onto that token (\<^verbatim>\<open>tokens[i+1] = token + nextToken\<close>) and not pushed itself.
\<close>

fun foldSigns :: "bool \<Rightarrow> string list \<Rightarrow> string list \<Rightarrow> string list" where
  "foldSigns first processed [] = processed"
| "foldSigns first processed [t] = processed @ [t]"
| "foldSigns first processed (t # n # ts) =
     (if (t = ''+'' \<or> t = ''-'') \<and> signPosition first processed \<and> (n \<noteq> [] \<and> isDigit (hd n))
      then foldSigns False processed ((t @ n) # ts)
      else foldSigns False (processed @ [t]) (n # ts))"

text \<open>\<^verbatim>\<open>parseInt\<close> on a string of decimal digits; \<^verbatim>\<open>None\<close> is \<^verbatim>\<open>NaN\<close> (no leading digit).\<close>

definition digitValue :: "char \<Rightarrow> nat" where
  "digitValue c = of_char c - 48"

definition digitsValue :: "string \<Rightarrow> nat" where
  "digitsValue s = foldl (\<lambda>acc c. 10 * acc + digitValue c) 0 s"

definition parseInt :: "string \<Rightarrow> int option" where
  "parseInt s =
     (let ds = takeWhile isDigit s in if ds = [] then None else Some (int (digitsValue ds)))"

text \<open>\<^verbatim>\<open>parseFloat\<close> on a token of the shape \<^verbatim>\<open>-?\d+(\.\d+)?\<close>, as an exact rational.\<close>

definition parseUnsigned :: "string \<Rightarrow> rat" where
  "parseUnsigned s =
     (let ip = takeWhile isDigit s; r = dropWhile isDigit s in
      case r of
        [] \<Rightarrow> of_nat (digitsValue ip)
      | p # fr \<Rightarrow>
          (let fd = takeWhile isDigit fr in
           if p = CHR ''.'' then of_nat (digitsValue ip) + of_nat (digitsValue fd) / 10 ^ length fd
           else of_nat (digitsValue ip)))"

definition parseFloat :: "string \<Rightarrow> rat" where
  "parseFloat s =
     (case s of
        [] \<Rightarrow> 0
      | c # cs \<Rightarrow> if c = CHR ''-'' then - parseUnsigned cs else parseUnsigned s)"

text \<open>The anchored patterns of the classification loop.\<close>

definition allDigits :: "string \<Rightarrow> bool" where
  "allDigits s = (s \<noteq> [] \<and> list_all isDigit s)"

text \<open>\<^verbatim>\<open>/^\d+d\d+$/\<close>\<close>

definition matchDice :: "string \<Rightarrow> bool" where
  "matchDice s =
     (takeWhile isDigit s \<noteq> [] \<and>
      (case dropWhile isDigit s of [] \<Rightarrow> False | r # rs \<Rightarrow> r = CHR ''d'' \<and> allDigits rs))"

text \<open>\<^verbatim>\<open>/^-?\d+(\.\d+)?$/\<close>\<close>

definition matchUnsignedNumber :: "string \<Rightarrow> bool" where
  "matchUnsignedNumber s =
     (takeWhile isDigit s \<noteq> [] \<and>
      (case dropWhile isDigit s of [] \<Rightarrow> True | r # rs \<Rightarrow> r = CHR ''.'' \<and> allDigits rs))"

definition matchNumber :: "string \<Rightarrow> bool" where
  "matchNumber s =
     (case s of
        [] \<Rightarrow> False
      | c # cs \<Rightarrow> if c = CHR ''-'' then matchUnsignedNumber cs else matchUnsignedNumber s)"

text \<open>\<^verbatim>\<open>/^-(\d+d\d+)$/\<close>\<close>

definition matchNegDice :: "string \<Rightarrow> bool" where
  "matchNegDice s = (case s of [] \<Rightarrow> False | c # cs \<Rightarrow> c = CHR ''-'' \<and> matchDice cs)"

text \<open>
  \<^verbatim>\<open>const [countStr, sidesStr] = token.split('d')\<close> followed by the two \<^verbatim>\<open>parseInt\<close> calls and
  the validity test; \<^verbatim>\<open>None\<close> is the \<^verbatim>\<open>return null\<close> of the test.
\<close>

definition parseDice :: "string \<Rightarrow> CalculationTerm option" where
  "parseDice s =
     (let countStr = takeWhile (\<lambda>c. c \<noteq> CHR ''d'') s;
          sidesStr = takeWhile (\<lambda>c. c \<noteq> CHR ''d'') (drop 1 (dropWhile (\<lambda>c. c \<noteq> CHR ''d'') s));
          cnt = (if countStr = [] then Some 1 else parseInt countStr);
          sds = parseInt sidesStr
      in case (cnt, sds) of
           (Some c, Some n) \<Rightarrow> if n \<le> 0 \<or> c \<le> 0 then None else Some (DiceTerm c n)
         | _ \<Rightarrow> None)"

text \<open>
  The chain of tests in the body of the classification loop, in the order of the source:
  the terms pushed for one token, or \<^verbatim>\<open>None\<close> where the body returns \<^verbatim>\<open>null\<close>.
\<close>

definition classifyToken :: "string \<Rightarrow> ParsedTerm list option" where
  "classifyToken token =
     (if matchDice token then
        (case parseDice token of None \<Rightarrow> None | Some d \<Rightarrow> Some [Operand d])
      else if matchNumber token then Some [Operand (NumberTerm (parseFloat token))]
      else if token = ''+'' then Some [OperatorTerm Plus]
      else if token = ''-'' then Some [OperatorTerm Minus]
      else if token = ''*'' then Some [OperatorTerm Times]
      else if token = ''/'' then Some [OperatorTerm Divide]
      else if token = ''('' then Some [ParenthesisTerm LParen]
      else if token = '')'' then Some [ParenthesisTerm RParen]
      else if matchNegDice token then
        (case parseDice (tl token) of
           None \<Rightarrow> None
         | Some d \<Rightarrow> Some [Operand (NumberTerm (- 1)), OperatorTerm Times, Operand d])
      else None)"

text \<open>
  The classification loop with its running parenthesis count; \<^verbatim>\<open>None\<close> is \<^verbatim>\<open>null\<close>.
\<close>

fun parseTokens :: "int \<Rightarrow> ParsedTerm list \<Rightarrow> string list \<Rightarrow> ParsedTerm list option" where
  "parseTokens openParens parsedTokens [] =
     (if openParens \<noteq> 0 then None else Some parsedTokens)"
| "parseTokens openParens parsedTokens (token # tokens) =
     (let openParens' =
        (if token = ''('' then openParens + 1
         else if token = '')'' then openParens - 1 else openParens)
      in
      if openParens' < 0 then None
      else case classifyToken token of
        None \<Rightarrow> None
      | Some pushed \<Rightarrow> parseTokens openParens' (parsedTokens @ pushed) tokens)"

definition tokenizeFormula :: "string \<Rightarrow> ParsedTerm list option" where
  "tokenizeFormula formula =
     (let clean = cleanFormula formula in
      if clean = [] then Some []
      else parseTokens 0 [] (foldSigns True [] (regexMatch ''+-*/()'' clean)))"

definition parseDiceFormula :: "string \<Rightarrow> ParsedTerm list option" where
  "parseDiceFormula formula = tokenizeFormula formula"

section \<open>The earlier tokenizer\<close>

text \<open>
  \<^verbatim>\<open>tokenizeFormula\<close> of \<^verbatim>\<open>src/lib/dice-utils.ts\<close>, the revision without parentheses: the same
  cleaning and the same pattern but for the parentheses, then one loop that folds signs
  and checks, with \<^verbatim>\<open>expectOperand\<close>, that operands and operators alternate.
\<close>

fun operatorOf :: "string \<Rightarrow> operator option" where
  "operatorOf token =
     (if token = ''+'' then Some Plus
      else if token = ''-'' then Some Minus
      else if token = ''*'' then Some Times
      else if token = ''/'' then Some Divide
      else None)"

text \<open>\<^verbatim>\<open>parseFloat\<close> with its \<^verbatim>\<open>NaN\<close> (no leading digit) as \<^verbatim>\<open>None\<close>.\<close>

definition parseFloatOpt :: "string \<Rightarrow> rat option" where
  "parseFloatOpt s = (if takeWhile isDigit s = [] then None else Some (parseUnsigned s))"

definition startsWith :: "string \<Rightarrow> char \<Rightarrow> bool" where
  "startsWith s c = (case s of [] \<Rightarrow> False | x # xs \<Rightarrow> x = c)"

text \<open>The branch of an operand token: the terms pushed, or \<^verbatim>\<open>None\<close> for \<^verbatim>\<open>return null\<close>.\<close>

definition operandTerms :: "string \<Rightarrow> ParsedTerm list option" where
  "operandTerms token =
     (let sign = (if startsWith token (CHR ''-'') then - 1 else 1 :: rat);
          unsignedToken =
            (if startsWith token (CHR ''-'') \<or> startsWith token (CHR ''+'') then drop 1 token
             else token)
      in
      if CHR ''d'' \<in> set unsignedToken then
        (case parseDice unsignedToken of
           None \<Rightarrow> None
         | Some d \<Rightarrow>
             Some ((if sign = - 1 then [Operand (NumberTerm (- 1)), OperatorTerm Times] else [])
                   @ [Operand d]))
      else
        (case parseFloatOpt unsignedToken of
           None \<Rightarrow> None
         | Some v \<Rightarrow> Some [Operand (NumberTerm (v * sign))]))"

text \<open>\<^verbatim>\<open>i + 1 < tokens.length\<close> and \<^verbatim>\<open>tokens[i+1].match(/^\d/)\<close>\<close>

definition nextStartsWithDigit :: "string list \<Rightarrow> bool" where
  "nextStartsWithDigit rest = (case rest of [] \<Rightarrow> False | n # r \<Rightarrow> n \<noteq> [] \<and> isDigit (hd n))"

function tokenLoop_lib :: "bool \<Rightarrow> ParsedTerm list \<Rightarrow> string list \<Rightarrow> ParsedTerm list option" where
  "tokenLoop_lib expectOperand parsedTokens [] =
     (if expectOperand \<and> parsedTokens \<noteq> [] then None else Some parsedTokens)"
| "tokenLoop_lib expectOperand parsedTokens (token # rest) =
     (case operatorOf token of
        Some op \<Rightarrow>
          (if expectOperand \<and> (token = ''-'' \<or> token = ''+'') \<and> nextStartsWithDigit rest
           then tokenLoop_lib expectOperand parsedTokens ((token @ hd rest) # tl rest)
           else if expectOperand then None
           else tokenLoop_lib True (parsedTokens @ [OperatorTerm op]) rest)
      | None \<Rightarrow>
          (if \<not> expectOperand then None
           else case operandTerms token of
             None \<Rightarrow> None
           | Some pushed \<Rightarrow> tokenLoop_lib False (parsedTokens @ pushed) rest))"
  by pat_completeness auto
termination
  by (relation "measure (\<lambda>(e, acc, ts). length ts)")
     (auto simp: nextStartsWithDigit_def split: list.splits)

definition tokenizeFormula_lib :: "string \<Rightarrow> ParsedTerm list option" where
  "tokenizeFormula_lib formula =
     (let clean = cleanFormula formula in
      if clean = [] then Some []
      else tokenLoop_lib True [] (regexMatch ''+-*/'' clean))"

section \<open>Evaluator\<close>

text \<open>Entries of the operator stack \<^verbatim>\<open>ops\<close>: the barrier \<^verbatim>\<open>'('\<close> or an operator.\<close>

datatype opsym = OpenSym | OpSym operator

datatype error = MismatchedParentheses

fun precedence :: "operator \<Rightarrow> nat" where
  "precedence Plus = 1"
| "precedence Minus = 1"
| "precedence Times = 2"
| "precedence Divide = 2"

text \<open>Arithmetic on numbers: \<^verbatim>\<open>NaN\<close> in, \<^verbatim>\<open>NaN\<close> out; \<^verbatim>\<open>undefined\<close> (\<^verbatim>\<open>None\<close>, the result
  of \<^verbatim>\<open>pop\<close> on an empty array) converts to \<^verbatim>\<open>NaN\<close>.\<close>

fun lift2 :: "(rat \<Rightarrow> rat \<Rightarrow> rat) \<Rightarrow> jsnum \<Rightarrow> jsnum \<Rightarrow> jsnum" where
  "lift2 f (Num x) (Num y) = Num (f x y)"
| "lift2 f x y = NaN"

fun toNumber :: "jsnum option \<Rightarrow> jsnum" where
  "toNumber None = NaN"
| "toNumber (Some x) = x"

text \<open>\<^verbatim>\<open>applyOp(op, b, a, 'value')\<close>\<close>

fun applyOp :: "operator \<Rightarrow> jsnum option \<Rightarrow> jsnum option \<Rightarrow> jsnum" where
  "applyOp Plus b a = lift2 (+) (toNumber a) (toNumber b)"
| "applyOp Minus b a = lift2 (-) (toNumber a) (toNumber b)"
| "applyOp Times b a = lift2 (*) (toNumber a) (toNumber b)"
| "applyOp Divide b a =
     (if b = Some (Num 0) then NaN else lift2 (/) (toNumber a) (toNumber b))"

text \<open>
  The two stacks are lists whose head is the top of the stack (the last element of the
  JavaScript array). \<^verbatim>\<open>values.pop()\<close> on an empty array returns \<^verbatim>\<open>undefined\<close> and leaves
  the array empty.
\<close>

fun popValue :: "'v list \<Rightarrow> 'v option \<times> 'v list" where
  "popValue [] = (None, [])"
| "popValue (v # vs) = (Some v, vs)"

text \<open>\<^verbatim>\<open>const b = values.pop(); const a = values.pop(); values.push(applyOp(op, b, a, m))\<close>\<close>

definition applyTop ::
  "(operator \<Rightarrow> 'v option \<Rightarrow> 'v option \<Rightarrow> 'v) \<Rightarrow> operator \<Rightarrow> 'v list \<Rightarrow> 'v list" where
  "applyTop ap op vs =
     (case popValue vs of (b, vs1) \<Rightarrow> case popValue vs1 of (a, vs2) \<Rightarrow> ap op b a # vs2)"

text \<open>The loop of a closing parenthesis, with the pop of the barrier.\<close>

fun closeParen ::
  "(operator \<Rightarrow> 'v option \<Rightarrow> 'v option \<Rightarrow> 'v) \<Rightarrow> 'v list \<Rightarrow> opsym list
     \<Rightarrow> error + ('v list \<times> opsym list)" where
  "closeParen ap vs [] = Inl MismatchedParentheses"
| "closeParen ap vs (OpenSym # ops) = Inr (vs, ops)"
| "closeParen ap vs (OpSym op # ops) = closeParen ap (applyTop ap op vs) ops"

text \<open>The loop of an operator token, with the push of the token.\<close>

fun pushOperator ::
  "(operator \<Rightarrow> 'v option \<Rightarrow> 'v option \<Rightarrow> 'v) \<Rightarrow> operator \<Rightarrow> 'v list \<Rightarrow> opsym list
     \<Rightarrow> 'v list \<times> opsym list" where
  "pushOperator ap tok vs [] = (vs, [OpSym tok])"
| "pushOperator ap tok vs (OpenSym # ops) = (vs, OpSym tok # OpenSym # ops)"
| "pushOperator ap tok vs (OpSym op # ops) =
     (if precedence op \<ge> precedence tok then pushOperator ap tok (applyTop ap op vs) ops
      else (vs, OpSym tok # OpSym op # ops))"

text \<open>The final loop \<^verbatim>\<open>while (ops.length > 0)\<close>.\<close>

fun drainOps ::
  "(operator \<Rightarrow> 'v option \<Rightarrow> 'v option \<Rightarrow> 'v) \<Rightarrow> 'v list \<Rightarrow> opsym list \<Rightarrow> error + 'v list" where
  "drainOps ap vs [] = Inr vs"
| "drainOps ap vs (OpenSym # ops) = Inl MismatchedParentheses"
| "drainOps ap vs (OpSym op # ops) = drainOps ap (applyTop ap op vs) ops"

text \<open>
  The loop over the tokens. \<^verbatim>\<open>resolve\<close> is \<^verbatim>\<open>resolveTerm\<close>; it is given, and returns, the
  number of \<^verbatim>\<open>Math.random()\<close> calls made so far.
\<close>

fun evalTokens ::
  "(CalculationTerm \<Rightarrow> nat \<Rightarrow> 'v \<times> nat) \<Rightarrow> (operator \<Rightarrow> 'v option \<Rightarrow> 'v option \<Rightarrow> 'v)
     \<Rightarrow> ParsedTerm list \<Rightarrow> 'v list \<Rightarrow> opsym list \<Rightarrow> nat \<Rightarrow> error + ('v list \<times> opsym list)" where
  "evalTokens resolve ap [] vs ops k = Inr (vs, ops)"
| "evalTokens resolve ap (Operand t # ts) vs ops k =
     (case resolve t k of (v, k') \<Rightarrow> evalTokens resolve ap ts (v # vs) ops k')"
| "evalTokens resolve ap (ParenthesisTerm LParen # ts) vs ops k =
     evalTokens resolve ap ts vs (OpenSym # ops) k"
| "evalTokens resolve ap (ParenthesisTerm RParen # ts) vs ops k =
     (case closeParen ap vs ops of
        Inl e \<Rightarrow> Inl e
      | Inr (vs', ops') \<Rightarrow> evalTokens resolve ap ts vs' ops' k)"
| "evalTokens resolve ap (OperatorTerm tok # ts) vs ops k =
     (case pushOperator ap tok vs ops of (vs', ops') \<Rightarrow> evalTokens resolve ap ts vs' ops' k)"

text \<open>The value returned at the end: \<^verbatim>\<open>values[0]\<close> when exactly one value is left, otherwise
  the last value of the array, or the default of the mode when the array is empty.\<close>

definition finalValue :: "'v \<Rightarrow> 'v list \<Rightarrow> 'v" where
  "finalValue dflt vs =
     (if length vs \<noteq> 1 then (case vs of [] \<Rightarrow> dflt | v # below \<Rightarrow> v)
      else (case vs of [] \<Rightarrow> dflt | v # below \<Rightarrow> v))"

text \<open>The value stack when both loops are done (\<^verbatim>\<open>values\<close> at the final test), or the
  exception thrown on the way.\<close>

definition leftoverValues ::
  "(CalculationTerm \<Rightarrow> nat \<Rightarrow> 'v \<times> nat) \<Rightarrow> (operator \<Rightarrow> 'v option \<Rightarrow> 'v option \<Rightarrow> 'v)
     \<Rightarrow> ParsedTerm list \<Rightarrow> error + 'v list" where
  "leftoverValues resolve ap tokens =
     (case evalTokens resolve ap tokens [] [] 0 of
        Inl e \<Rightarrow> Inl e
      | Inr (vs, ops) \<Rightarrow> drainOps ap vs ops)"

text \<open>
  \<^verbatim>\<open>evaluate\<close>, for any domain of values: the source is untyped in its values (numbers in
  the four scalar modes, maps in the mode \<^verbatim>\<open>'dist'\<close>) and runs the same loops on both.
\<close>

definition evaluate_with ::
  "(CalculationTerm \<Rightarrow> nat \<Rightarrow> 'v \<times> nat) \<Rightarrow> (operator \<Rightarrow> 'v option \<Rightarrow> 'v option \<Rightarrow> 'v)
     \<Rightarrow> 'v \<Rightarrow> ParsedTerm list \<Rightarrow> error + 'v" where
  "evaluate_with resolve ap dflt tokens =
     (if tokens = [] then Inr dflt
      else case leftoverValues resolve ap tokens of
        Inl e \<Rightarrow> Inl e
      | Inr vs \<Rightarrow> Inr (finalValue dflt vs))"

text \<open>
  The scalar modes. \<^verbatim>\<open>Roll rnd\<close> is the mode \<^verbatim>\<open>'roll'\<close> together with the results of the
  successive calls of \<^verbatim>\<open>Math.random()\<close>: \<^verbatim>\<open>rnd 0\<close>, \<^verbatim>\<open>rnd 1\<close>, ...
\<close>

datatype mode = Min | Max | Avg | Roll "nat \<Rightarrow> rat"

text \<open>\<^verbatim>\<open>Math.floor(Math.random() * sides) + 1\<close>, for the calls number \<^verbatim>\<open>k\<close> to \<^verbatim>\<open>k + n - 1\<close>.\<close>

definition rolls :: "(nat \<Rightarrow> rat) \<Rightarrow> nat \<Rightarrow> nat \<Rightarrow> int \<Rightarrow> int list" where
  "rolls rnd k n s = map (\<lambda>i. \<lfloor>rnd (k + i) * of_int s\<rfloor> + 1) [0..<n]"

fun resolveTerm :: "mode \<Rightarrow> CalculationTerm \<Rightarrow> nat \<Rightarrow> jsnum \<times> nat" where
  "resolveTerm m (NumberTerm v) k = (Num v, k)"
| "resolveTerm Min (DiceTerm c s) k = (Num (of_int (c * 1)), k)"
| "resolveTerm Max (DiceTerm c s) k = (Num (of_int (c * s)), k)"
| "resolveTerm Avg (DiceTerm c s) k = (Num (of_int (c * (s + 1)) / 2), k)"
| "resolveTerm (Roll rnd) (DiceTerm c s) k =
     (Num (of_int (sum_list (rolls rnd k (nat c) s))), k + nat c)"

definition evaluate :: "ParsedTerm list \<Rightarrow> mode \<Rightarrow> error + jsnum" where
  "evaluate tokens m = evaluate_with (resolveTerm m) applyOp (Num 0) tokens"

text \<open>\<^verbatim>\<open>Math.floor\<close>\<close>

fun jsFloor :: "jsnum \<Rightarrow> jsnum" where
  "jsFloor NaN = NaN"
| "jsFloor (Num x) = Num (of_int \<lfloor>x\<rfloor>)"

record Stats =
  min_stat :: jsnum
  max_stat :: jsnum
  avg :: jsnum
  avgFloored :: jsnum

definition zeroStats :: Stats where
  "zeroStats = \<lparr>min_stat = Num 0, max_stat = Num 0, avg = Num 0, avgFloored = Num 0\<rparr>"

text \<open>\<^verbatim>\<open>calculateStats\<close>: an exception of \<^verbatim>\<open>evaluate\<close> is caught and gives the zero record.\<close>

definition calculateStats :: "ParsedTerm list \<Rightarrow> Stats" where
  "calculateStats terms =
     (if terms = [] then zeroStats
      else case evaluate terms Min of
        Inl e \<Rightarrow> zeroStats
      | Inr mn \<Rightarrow>
          (case evaluate terms Max of
             Inl e \<Rightarrow> zeroStats
           | Inr mx \<Rightarrow>
               (case evaluate terms Avg of
                  Inl e \<Rightarrow> zeroStats
                | Inr av \<Rightarrow>
                    \<lparr>min_stat = mn, max_stat = mx, avg = av, avgFloored = jsFloor av\<rparr>)))"

section \<open>Simulated roll\<close>

record RollDetail =
  roll_value :: int
  roll_sides :: int
  roll_sign :: int

record RollResult =
  total :: jsnum
  details :: "RollDetail list"
  modifier :: rat

text \<open>The \<^verbatim>\<open>terms.map\<close> of \<^verbatim>\<open>simulateRoll\<close>: every dice term is rolled, in order, and replaced
  by the number term of its sum; the rolls are appended to \<^verbatim>\<open>rollDetails\<close>.\<close>

fun rollTerms ::
  "(nat \<Rightarrow> rat) \<Rightarrow> nat \<Rightarrow> ParsedTerm list \<Rightarrow> ParsedTerm list \<times> RollDetail list \<times> nat" where
  "rollTerms rnd k [] = ([], [], k)"
| "rollTerms rnd k (Operand (DiceTerm c s) # ts) =
     (let rs = rolls rnd k (nat c) s in
      case rollTerms rnd (k + nat c) ts of
        (ts', ds, k') \<Rightarrow>
          (Operand (NumberTerm (of_int (sum_list rs))) # ts',
           map (\<lambda>r. \<lparr>roll_value = r, roll_sides = s, roll_sign = 1\<rparr>) rs @ ds, k'))"
| "rollTerms rnd k (t # ts) =
     (case rollTerms rnd k ts of (ts', ds, k') \<Rightarrow> (t # ts', ds, k'))"

text \<open>\<^verbatim>\<open>terms.filter(t => t.type === 'number').reduce((sum, t) => sum + t.value, 0)\<close>\<close>

fun numberValues :: "ParsedTerm list \<Rightarrow> rat list" where
  "numberValues [] = []"
| "numberValues (Operand (NumberTerm v) # ts) = v # numberValues ts"
| "numberValues (t # ts) = numberValues ts"

definition simulateRoll :: "(nat \<Rightarrow> rat) \<Rightarrow> ParsedTerm list \<Rightarrow> RollResult" where
  "simulateRoll rnd terms =
     (if terms = [] then \<lparr>total = Num 0, details = [], modifier = 0\<rparr>
      else case rollTerms rnd 0 terms of
        (rolledTerms, rollDetails, used) \<Rightarrow>
          (case evaluate rolledTerms (Roll (\<lambda>i. rnd (used + i))) of
             Inl e \<Rightarrow> \<lparr>total = Num 0, details = [], modifier = 0\<rparr>
           | Inr t \<Rightarrow>
               \<lparr>total = t, details = rollDetails,
                modifier = foldl (+) 0 (numberValues terms)\<rparr>))"

section \<open>Distribution engine\<close>

text \<open>
  \<^verbatim>\<open>Distribution = Map<number, number>\<close>: a JavaScript map keeps its keys in the order of
  their first insertion, so it is a list of (outcome, multiplicity) pairs with distinct
  outcomes. Multiplicities are natural numbers.
\<close>

type_synonym Distribution = "(rat \<times> nat) list"

text \<open>\<^verbatim>\<open>m.get(k)\<close> and \<^verbatim>\<open>m.set(k, v)\<close>: setting an existing key keeps its position.\<close>

fun mapGet :: "Distribution \<Rightarrow> rat \<Rightarrow> nat option" where
  "mapGet [] k = None"
| "mapGet ((k', v) # m) k = (if k' = k then Some v else mapGet m k)"

fun mapSet :: "rat \<Rightarrow> nat \<Rightarrow> Distribution \<Rightarrow> Distribution" where
  "mapSet k v [] = [(k, v)]"
| "mapSet k v ((k', v') # m) = (if k' = k then (k, v) # m else (k', v') # mapSet k v m)"

text \<open>\<^verbatim>\<open>m.set(k, (m.get(k) || 0) + c)\<close>\<close>

definition accumulate :: "rat \<Rightarrow> nat \<Rightarrow> Distribution \<Rightarrow> Distribution" where
  "accumulate k c m = mapSet k ((case mapGet m k of None \<Rightarrow> 0 | Some n \<Rightarrow> n) + c) m"

text \<open>One more die: the two inner loops of \<^verbatim>\<open>getTermDistribution\<close>, over the faces and over
  the entries of \<^verbatim>\<open>currentDist\<close>, filling \<^verbatim>\<open>nextDist\<close>.\<close>

definition addDie :: "int \<Rightarrow> Distribution \<Rightarrow> Distribution" where
  "addDie s currentDist =
     fold (\<lambda>f nextDist.
            fold (\<lambda>(sm, cnt) nd. accumulate (sm + of_int f) cnt nd) currentDist nextDist)
          [1..s] []"

fun getTermDistribution :: "CalculationTerm \<Rightarrow> Distribution" where
  "getTermDistribution (NumberTerm v) = [(v, 1)]"
| "getTermDistribution (DiceTerm c s) = (addDie s ^^ nat c) [(0, 1)]"

text \<open>\<^verbatim>\<open>Math.round\<close> rounds to the nearest integer, a half towards plus infinity.\<close>

definition jsRound :: "rat \<Rightarrow> rat" where
  "jsRound x = of_int \<lfloor>x + 1 / 2\<rfloor>"

text \<open>The value of one pair of outcomes under an operator, before rounding. On finite
  values a division by zero is the only operation whose result is not a number.\<close>

fun combineValue :: "operator \<Rightarrow> rat \<Rightarrow> rat \<Rightarrow> jsnum" where
  "combineValue Plus val1 val2 = Num (val1 + val2)"
| "combineValue Minus val1 val2 = Num (val1 - val2)"
| "combineValue Times val1 val2 = Num (val1 * val2)"
| "combineValue Divide val1 val2 = (if val2 = 0 then NaN else Num (val1 / val2))"

text \<open>The body of the inner loop of \<^verbatim>\<open>combineDistributions\<close>.\<close>

definition combineStep ::
  "operator \<Rightarrow> rat \<times> nat \<Rightarrow> rat \<times> nat \<Rightarrow> Distribution \<Rightarrow> Distribution" where
  "combineStep op e1 e2 newDist =
     (case combineValue op (fst e1) (fst e2) of
        NaN \<Rightarrow> newDist
      | Num newVal \<Rightarrow> accumulate (jsRound (newVal * 1000000000) / 1000000000) (snd e1 * snd e2) newDist)"

text \<open>\<^verbatim>\<open>combineDistributions\<close>; an \<^verbatim>\<open>undefined\<close> argument gives the empty map.\<close>

fun combineDistributions ::
  "Distribution option \<Rightarrow> Distribution option \<Rightarrow> operator \<Rightarrow> Distribution" where
  "combineDistributions (Some dist1) (Some dist2) op =
     fold (\<lambda>e1 nd. fold (\<lambda>e2 nd'. combineStep op e1 e2 nd') dist2 nd) dist1 []"
| "combineDistributions d1 d2 op = []"

text \<open>\<^verbatim>\<open>applyOp(op, b, a, 'dist')\<close>\<close>

definition applyOpDist ::
  "operator \<Rightarrow> Distribution option \<Rightarrow> Distribution option \<Rightarrow> Distribution" where
  "applyOpDist op b a = combineDistributions a b op"

text \<open>\<^verbatim>\<open>evaluate(tokens, 'dist')\<close>\<close>

definition evaluateDist :: "ParsedTerm list \<Rightarrow> error + Distribution" where
  "evaluateDist tokens =
     evaluate_with (\<lambda>t k. (getTermDistribution t, k)) applyOpDist [(0, 1)] tokens"

record Bucket =
  outcome :: rat
  probability :: rat

text \<open>\<^verbatim>\<open>terms.reduce((sum, term) => term.type === 'dice' ? sum + term.count : sum, 0)\<close>\<close>

fun totalDice :: "ParsedTerm list \<Rightarrow> int" where
  "totalDice [] = 0"
| "totalDice (Operand (DiceTerm c s) # ts) = c + totalDice ts"
| "totalDice (t # ts) = totalDice ts"

text \<open>The normalisation at the end of \<^verbatim>\<open>calculateProbabilityDistribution\<close>.\<close>

definition normalise :: "Distribution \<Rightarrow> Bucket list" where
  "normalise finalDistribution =
     (let totalCombinations = sum_list (map snd finalDistribution) in
      if totalCombinations = 0 then []
      else sort_key outcome
             (filter (\<lambda>item. probability item > 0)
                (map (\<lambda>(v, cnt). \<lparr>outcome = v, probability = of_nat cnt / of_nat totalCombinations\<rparr>)
                   finalDistribution)))"

definition calculateProbabilityDistribution :: "ParsedTerm list \<Rightarrow> Bucket list" where
  "calculateProbabilityDistribution terms =
     (if terms = [] then []
      else if totalDice terms > 8 then []
      else case evaluateDist terms of
        Inl e \<Rightarrow> []
      | Inr finalDistribution \<Rightarrow> normalise finalDistribution)"

section \<open>Expressions and their values\<close>

text \<open>
  The expressions of the specification: operands combined by binary operators, and
  parenthesised groups.
\<close>

datatype expr = Atom CalculationTerm | Bin expr operator expr | Group expr

text \<open>The term sequence an expression is written as.\<close>

fun exprTerms :: "expr \<Rightarrow> ParsedTerm list" where
  "exprTerms (Atom t) = [Operand t]"
| "exprTerms (Bin l op r) = exprTerms l @ OperatorTerm op # exprTerms r"
| "exprTerms (Group e) = ParenthesisTerm LParen # exprTerms e @ [ParenthesisTerm RParen]"

text \<open>The precedence of the operator at the root; an operand or a group binds tightest.\<close>

fun topprec :: "expr \<Rightarrow> nat" where
  "topprec (Bin l op r) = precedence op"
| "topprec e = 3"

text \<open>
  The tree is the one the specification's rules give to its term sequence: \<^verbatim>\<open>*\<close> and \<^verbatim>\<open>/\<close>
  before \<^verbatim>\<open>+\<close> and \<^verbatim>\<open>-\<close>, left-associative at equal precedence. So the left operand of an
  operator is an operand, a group or an application of an operator of at least its
  precedence, and the right operand one of an operator of higher precedence.
\<close>

fun spec_tree :: "expr \<Rightarrow> bool" where
  "spec_tree (Atom t) = True"
| "spec_tree (Group e) = spec_tree e"
| "spec_tree (Bin l op r) =
     (spec_tree l \<and> spec_tree r \<and> precedence op \<le> topprec l \<and> precedence op < topprec r)"

text \<open>
  The value of an expression as the specification defines it, by recursion on the tree:
  the operands are resolved from left to right, an operator is applied to the values of
  its two sides. \<^verbatim>\<open>resolve\<close> and \<^verbatim>\<open>ap\<close> are those of the mode.
\<close>

fun spec_value ::
  "(CalculationTerm \<Rightarrow> nat \<Rightarrow> 'v \<times> nat) \<Rightarrow> (operator \<Rightarrow> 'v option \<Rightarrow> 'v option \<Rightarrow> 'v)
     \<Rightarrow> expr \<Rightarrow> nat \<Rightarrow> 'v \<times> nat" where
  "spec_value resolve ap (Atom t) k = resolve t k"
| "spec_value resolve ap (Group e) k = spec_value resolve ap e k"
| "spec_value resolve ap (Bin l op r) k =
     (case spec_value resolve ap l k of
        (vl, k1) \<Rightarrow>
          (case spec_value resolve ap r k1 of
             (vr, k2) \<Rightarrow> (ap op (Some vr) (Some vl), k2)))"

text \<open>
  Popping and applying the operators of precedence at least \<open>q\<close> from the top of the
  operator stack, down to a barrier: the common part of the three loops of \<^verbatim>\<open>evaluate\<close>.
\<close>

fun flush ::
  "(operator \<Rightarrow> 'v option \<Rightarrow> 'v option \<Rightarrow> 'v) \<Rightarrow> nat \<Rightarrow> 'v list \<Rightarrow> opsym list
     \<Rightarrow> 'v list \<times> opsym list" where
  "flush ap q vs [] = (vs, [])"
| "flush ap q vs (OpenSym # ops) = (vs, OpenSym # ops)"
| "flush ap q vs (OpSym op # ops) =
     (if precedence op \<ge> q then flush ap q (applyTop ap op vs) ops
      else (vs, OpSym op # ops))"

text \<open>The operator on top of the stack, if any, has precedence below \<open>q\<close>.\<close>

fun guard :: "nat \<Rightarrow> opsym list \<Rightarrow> bool" where
  "guard q (OpSym op # ops) = (precedence op < q)"
| "guard q ops = True"

section \<open>Parenthesis balance\<close>

text \<open>
  The condition the tokenizer enforces with its running count \<^verbatim>\<open>openParens\<close>, read on the
  term sequence: starting from \<open>n\<close> open parentheses the count never goes negative and
  ends at zero.
\<close>

fun balanced :: "int \<Rightarrow> ParsedTerm list \<Rightarrow> bool" where
  "balanced n [] = (n = 0)"
| "balanced n (ParenthesisTerm LParen # ts) = balanced (n + 1) ts"
| "balanced n (ParenthesisTerm RParen # ts) = (1 \<le> n \<and> balanced (n - 1) ts)"
| "balanced n (t # ts) = balanced n ts"

text \<open>The number of barriers on the operator stack.\<close>

fun opens :: "opsym list \<Rightarrow> int" where
  "opens [] = 0"
| "opens (OpenSym # ops) = 1 + opens ops"
| "opens (OpSym op # ops) = opens ops"


section \<open>Lexemes of a formula\<close>

text \<open>
  A formula as it is written: a sequence of number literals \<^verbatim>\<open>digits\<close> or \<^verbatim>\<open>digits.digits\<close>, dice
  literals \<^verbatim>\<open>count d sides\<close>, operators and parentheses.
\<close>

datatype lexeme =
    NumberLit string
  | DiceLit string string
  | OperatorSym operator
  | ParenSym paren

fun operatorText :: "operator \<Rightarrow> string" where
  "operatorText Plus = ''+''"
| "operatorText Minus = ''-''"
| "operatorText Times = ''*''"
| "operatorText Divide = ''/''"

fun lexemeText :: "lexeme \<Rightarrow> string" where
  "lexemeText (NumberLit s) = s"
| "lexemeText (DiceLit c s) = c @ CHR ''d'' # s"
| "lexemeText (OperatorSym op) = operatorText op"
| "lexemeText (ParenSym LParen) = ''(''"
| "lexemeText (ParenSym RParen) = '')''"

text \<open>A number literal has the shape \<^verbatim>\<open>\d+(\.\d+)?\<close>; the count and the sides of a dice literal
  are digit strings of positive value.\<close>

fun validLexeme :: "lexeme \<Rightarrow> bool" where
  "validLexeme (NumberLit s) = matchUnsignedNumber s"
| "validLexeme (DiceLit c s) =
     (allDigits c \<and> allDigits s \<and> 0 < digitsValue c \<and> 0 < digitsValue s)"
| "validLexeme l = True"

fun isOperand :: "lexeme \<Rightarrow> bool" where
  "isOperand (NumberLit s) = True"
| "isOperand (DiceLit c s) = True"
| "isOperand l = False"

text \<open>No two operands are adjacent, so that the text of the sequence is read back as this
  sequence.\<close>

fun separated :: "lexeme list \<Rightarrow> bool" where
  "separated (a # b # ls) = (\<not> (isOperand a \<and> isOperand b) \<and> separated (b # ls))"
| "separated ls = True"

fun isSign :: "lexeme \<Rightarrow> bool" where
  "isSign (OperatorSym Plus) = True"
| "isSign (OperatorSym Minus) = True"
| "isSign l = False"

text \<open>The position after this lexeme is a sign position: the lexeme is an open parenthesis
  or an operator. The start of the formula is a sign position too.\<close>

fun signAfter :: "lexeme \<Rightarrow> bool" where
  "signAfter (OperatorSym op) = True"
| "signAfter (ParenSym LParen) = True"
| "signAfter l = False"

text \<open>Every \<^verbatim>\<open>+\<close> or \<^verbatim>\<open>-\<close> in a sign position is a \<^verbatim>\<open>-\<close> followed by an operand; \<open>sp\<close> tells
  whether the sequence starts in a sign position.\<close>

fun signsBeforeOperands :: "bool \<Rightarrow> lexeme list \<Rightarrow> bool" where
  "signsBeforeOperands sp [] = True"
| "signsBeforeOperands sp [l] = (\<not> (sp \<and> isSign l))"
| "signsBeforeOperands sp (l # n # ls) =
     (if sp \<and> isSign l then l = OperatorSym Minus \<and> isOperand n \<and> signsBeforeOperands False ls
      else signsBeforeOperands (signAfter l) (n # ls))"

text \<open>The term of a lexeme taken by itself.\<close>

fun plainTerm :: "lexeme \<Rightarrow> ParsedTerm" where
  "plainTerm (NumberLit s) = Operand (NumberTerm (parseFloat s))"
| "plainTerm (DiceLit c s) = Operand (DiceTerm (int (digitsValue c)) (int (digitsValue s)))"
| "plainTerm (OperatorSym op) = OperatorTerm op"
| "plainTerm (ParenSym p) = ParenthesisTerm p"

text \<open>The terms of an operand with a \<^verbatim>\<open>-\<close> as its sign prefix: a number has the sign folded
  into its value, a dice term is preceded by the number \<^verbatim>\<open>-1\<close> and the operator \<^verbatim>\<open>*\<close>.\<close>

fun negatedTerms :: "lexeme \<Rightarrow> ParsedTerm list" where
  "negatedTerms (NumberLit s) = [Operand (NumberTerm (- parseFloat s))]"
| "negatedTerms l = [Operand (NumberTerm (- 1)), OperatorTerm Times, plainTerm l]"

text \<open>
  The term sequence that the rule of sign folding gives to a lexeme sequence: a \<^verbatim>\<open>-\<close> in a sign
  position with an operand after it is the sign prefix of that operand, and every other
  lexeme gives its own term.
\<close>

fun foldedTerms :: "bool \<Rightarrow> lexeme list \<Rightarrow> ParsedTerm list" where
  "foldedTerms sp [] = []"
| "foldedTerms sp [l] = [plainTerm l]"
| "foldedTerms sp (l # n # ls) =
     (if sp \<and> l = OperatorSym Minus \<and> isOperand n then negatedTerms n @ foldedTerms False ls
      else plainTerm l # foldedTerms (signAfter l) (n # ls))"

text \<open>The same on the token strings: the sign is glued onto the token of its operand.\<close>

fun gluedTokens :: "bool \<Rightarrow> lexeme list \<Rightarrow> string list" where
  "gluedTokens sp [] = []"
| "gluedTokens sp [l] = [lexemeText l]"
| "gluedTokens sp (l # n # ls) =
     (if sp \<and> l = OperatorSym Minus \<and> isOperand n
      then (CHR ''-'' # lexemeText n) # gluedTokens False ls
      else lexemeText l # gluedTokens (signAfter l) (n # ls))"

text \<open>What is left of the text after an operand does not continue that operand.\<close>

definition boundary :: "string \<Rightarrow> bool" where
  "boundary rest =
     (rest = [] \<or> (\<not> isDigit (hd rest) \<and> hd rest \<noteq> CHR ''d'' \<and> hd rest \<noteq> CHR ''.''))"

text \<open>
  Well-formed formulas: numbers and dice terms, each written with or without a \<^verbatim>\<open>-\<close> before it,
  joined by binary operators, and parenthesised sub-formulas. The flag of an operand tells
  whether the \<^verbatim>\<open>-\<close> is written. In a well-formed formula such a \<^verbatim>\<open>-\<close> stands at the start of
  the formula, after an open parenthesis or after another operator, and every other
  operator stands after an operand or a close parenthesis.
\<close>

datatype sexpr =
    SNumber bool string
  | SDice bool string string
  | SBin sexpr operator sexpr
  | SGroup sexpr

fun signPrefix :: "bool \<Rightarrow> lexeme list" where
  "signPrefix neg = (if neg then [OperatorSym Minus] else [])"

text \<open>The lexemes and the text of a well-formed formula.\<close>

fun sexprLexemes :: "sexpr \<Rightarrow> lexeme list" where
  "sexprLexemes (SNumber neg s) = signPrefix neg @ [NumberLit s]"
| "sexprLexemes (SDice neg c s) = signPrefix neg @ [DiceLit c s]"
| "sexprLexemes (SBin l op r) = sexprLexemes l @ OperatorSym op # sexprLexemes r"
| "sexprLexemes (SGroup e) = ParenSym LParen # sexprLexemes e @ [ParenSym RParen]"

definition sexprText :: "sexpr \<Rightarrow> string" where
  "sexprText e = concat (map lexemeText (sexprLexemes e))"

fun validSexpr :: "sexpr \<Rightarrow> bool" where
  "validSexpr (SNumber neg s) = matchUnsignedNumber s"
| "validSexpr (SDice neg c s) =
     (allDigits c \<and> allDigits s \<and> 0 < digitsValue c \<and> 0 < digitsValue s)"
| "validSexpr (SBin l op r) = (validSexpr l \<and> validSexpr r)"
| "validSexpr (SGroup e) = validSexpr e"

text \<open>
  The term sequence that the specification's rule of sign folding gives to a well-formed
  formula: a number with a \<^verbatim>\<open>-\<close> before it is the number term of the negated value, a dice
  term with a \<^verbatim>\<open>-\<close> before it is the three terms \<^verbatim>\<open>-1\<close>, \<^verbatim>\<open>*\<close> and the dice term, a binary
  operator and a parenthesis are their own terms.
\<close>

fun spec_terms :: "sexpr \<Rightarrow> ParsedTerm list" where
  "spec_terms (SNumber neg s) =
     [Operand (NumberTerm (if neg then - parseFloat s else parseFloat s))]"
| "spec_terms (SDice neg c s) =
     (if neg then [Operand (NumberTerm (- 1)), OperatorTerm Times] else []) @
     [Operand (DiceTerm (int (digitsValue c)) (int (digitsValue s)))]"
| "spec_terms (SBin l op r) = spec_terms l @ OperatorTerm op # spec_terms r"
| "spec_terms (SGroup e) = ParenthesisTerm LParen # spec_terms e @ [ParenthesisTerm RParen]"

section \<open>Properties of the tokenizer\<close>

text \<open>
  Claim C4. The tokenizer rejects \<^verbatim>\<open>"2d6++3"\<close>, \<^verbatim>\<open>"(1d6+4"\<close> and \<^verbatim>\<open>"1d0"\<close>, but it does not
  reject \<^verbatim>\<open>"d6 d6"\<close>: with the blank removed the input is \<^verbatim>\<open>d6d6\<close>, the scan finds no match
  at the first \<^verbatim>\<open>d\<close> and moves past it, and what is left is the single dice token \<^verbatim>\<open>6d6\<close>.
  \<^verbatim>\<open>parseDiceFormula\<close> returns the same term sequence. The earlier tokenizer accepts
  \<^verbatim>\<open>"d6 d6"\<close> in the same way, and also \<^verbatim>\<open>"2d6++3"\<close> (as \<^verbatim>\<open>2d6 + 3\<close>) and \<^verbatim>\<open>"(1d6+4"\<close> (it
  skips the parenthesis).
\<close>

theorem tokenizeFormula_malformed_inputs:
  "tokenizeFormula ''2d6++3'' = None \<and>
   tokenizeFormula ''(1d6+4'' = None \<and>
   tokenizeFormula ''1d0'' = None \<and>
   tokenizeFormula ''d6 d6'' = Some [Operand (DiceTerm 6 6)] \<and>
   parseDiceFormula ''d6 d6'' = Some [Operand (DiceTerm 6 6)] \<and>
   tokenizeFormula_lib ''2d6++3'' =
     Some [Operand (DiceTerm 2 6), OperatorTerm Plus, Operand (NumberTerm 3)] \<and>
   tokenizeFormula_lib ''(1d6+4'' =
     Some [Operand (DiceTerm 1 6), OperatorTerm Plus, Operand (NumberTerm 4)] \<and>
   tokenizeFormula_lib ''1d0'' = None \<and>
   tokenizeFormula_lib ''d6 d6'' = Some [Operand (DiceTerm 6 6)]"
  by code_simp

lemma isDigit_plain: "isDigit c \<Longrightarrow> \<not> isSpace c \<and> toLowerChar c = c \<and> c \<noteq> CHR ''d'' \<and> c \<noteq> CHR ''-''"
  by (auto simp: isDigit_def isSpace_def toLowerChar_def)

lemma cleanFormula_Cons:
  "cleanFormula (c # s) = (if isSpace c then cleanFormula s else toLowerChar c # cleanFormula s)"
  by (simp add: cleanFormula_def)

lemma cleanFormula_append: "cleanFormula (s @ t) = cleanFormula s @ cleanFormula t"
  by (simp add: cleanFormula_def)

lemma cleanFormula_digits: "list_all isDigit ds \<Longrightarrow> cleanFormula ds = ds"
  by (induction ds) (auto simp: cleanFormula_Cons isDigit_plain cleanFormula_def)

lemma takeWhile_all: "list_all P xs \<Longrightarrow> takeWhile P xs = xs \<and> dropWhile P xs = []"
  by (induction xs) auto

lemma takeWhile_digits_then:
  "list_all isDigit ds \<Longrightarrow> \<not> isDigit c \<Longrightarrow>
   takeWhile isDigit (ds @ c # r) = ds \<and> dropWhile isDigit (ds @ c # r) = c # r"
  by (induction ds) auto

lemma regexMatch_digits: "allDigits ds \<Longrightarrow> regexMatch singles ds = [ds]"
  by (cases ds) (auto simp: allDigits_def takeWhile_all)

lemma d_not_digit: "\<not> isDigit (CHR ''d'')"
  by (simp add: isDigit_def)

lemma regexMatch_dice:
  assumes "allDigits cs" "allDigits ss"
  shows "regexMatch singles (cs @ CHR ''d'' # ss) = [cs @ CHR ''d'' # ss]"
proof -
  obtain c cs' where c: "cs = c # cs'" and dc: "isDigit c"
    using assms(1) by (cases cs) (auto simp: allDigits_def)
  have t: "takeWhile isDigit (c # cs' @ CHR ''d'' # ss) = c # cs'"
    and d: "dropWhile isDigit (c # cs' @ CHR ''d'' # ss) = CHR ''d'' # ss"
    using takeWhile_digits_then [of cs "CHR ''d''" ss] assms(1) d_not_digit c
    by (auto simp: allDigits_def)
  have s1: "takeWhile isDigit ss = ss" and s2: "dropWhile isDigit ss = []" and s3: "ss \<noteq> []"
    using assms(2) takeWhile_all [of isDigit ss] by (auto simp: allDigits_def)
  have "regexMatch singles (c # cs' @ CHR ''d'' # ss) = [(c # cs') @ CHR ''d'' # ss]"
    by (simp only: regexMatch.simps dc if_True Let_def t d list.case s1 s2 s3 simp_thms
        not_False_eq_True)
  then show ?thesis using c by simp
qed

lemma regexMatch_minus:
  "regexMatch ''+-*/()'' (CHR ''-'' # rest) = ''-'' # regexMatch ''+-*/()'' rest"
  by (simp add: isDigit_def)

lemma digits_nonempty_head: "allDigits ds \<Longrightarrow> ds \<noteq> [] \<and> isDigit (hd ds)"
  by (cases ds) (auto simp: allDigits_def)

lemma foldSigns_minus:
  assumes "signPosition first processed" "n \<noteq> []" "isDigit (hd n)"
  shows "foldSigns first processed (''-'' # n # ts) =
         foldSigns False (processed @ [CHR ''-'' # n]) ts"
proof -
  have "foldSigns first processed (''-'' # n # ts) = foldSigns False processed ((''-'' @ n) # ts)"
    using assms by (simp add: signPosition_def)
  also have "\<dots> = foldSigns False (processed @ [CHR ''-'' # n]) ts"
    using assms(2) by (cases ts) (auto simp: neq_Nil_conv)
  finally show ?thesis .
qed

lemma matchDice_minus: "\<not> matchDice (CHR ''-'' # n)"
  by (simp add: matchDice_def isDigit_def)

lemma classifyToken_minus_number:
  assumes "matchUnsignedNumber n"
  shows "classifyToken (CHR ''-'' # n) = Some [Operand (NumberTerm (- parseUnsigned n))]"
  using assms by (simp add: classifyToken_def matchDice_minus matchNumber_def parseFloat_def)

lemma matchDice_not_number: "matchDice n \<Longrightarrow> \<not> matchUnsignedNumber n"
  unfolding matchDice_def matchUnsignedNumber_def
  by (cases "dropWhile isDigit n") simp_all

lemma classifyToken_minus_dice:
  assumes "matchDice n"
  shows "classifyToken (CHR ''-'' # n) =
     (case parseDice n of
        None \<Rightarrow> None
      | Some d \<Rightarrow> Some [Operand (NumberTerm (- 1)), OperatorTerm Times, Operand d])"
proof -
  have "n \<noteq> []" using assms by (auto simp: matchDice_def)
  then show ?thesis
    using assms matchDice_not_number [OF assms]
    by (simp add: classifyToken_def matchDice_minus matchNumber_def matchNegDice_def)
qed

lemma parseUnsigned_digits: "allDigits ds \<Longrightarrow> parseUnsigned ds = of_nat (digitsValue ds)"
  by (simp add: parseUnsigned_def allDigits_def takeWhile_all)

lemma matchUnsignedNumber_digits: "allDigits ds \<Longrightarrow> matchUnsignedNumber ds"
  by (auto simp: matchUnsignedNumber_def allDigits_def takeWhile_all)

lemma matchDice_digits: "allDigits cs \<Longrightarrow> allDigits ss \<Longrightarrow> matchDice (cs @ CHR ''d'' # ss)"
  using takeWhile_digits_then [of cs "CHR ''d''" ss] d_not_digit
  by (auto simp: matchDice_def allDigits_def)

lemma takeWhile_not_d:
  "list_all isDigit ds \<Longrightarrow>
   takeWhile (\<lambda>c. c \<noteq> CHR ''d'') (ds @ CHR ''d'' # r) = ds \<and>
   dropWhile (\<lambda>c. c \<noteq> CHR ''d'') (ds @ CHR ''d'' # r) = CHR ''d'' # r"
  by (induction ds) (auto simp: isDigit_plain)

lemma takeWhile_not_d_all:
  "list_all isDigit ds \<Longrightarrow> takeWhile (\<lambda>c. c \<noteq> CHR ''d'') ds = ds"
  by (induction ds) (auto simp: isDigit_plain)

lemma parseInt_digits: "allDigits ds \<Longrightarrow> parseInt ds = Some (int (digitsValue ds))"
  by (simp add: parseInt_def allDigits_def takeWhile_all)

lemma parseDice_digits:
  assumes "allDigits cs" "allDigits ss" "0 < digitsValue cs" "0 < digitsValue ss"
  shows "parseDice (cs @ CHR ''d'' # ss) =
         Some (DiceTerm (int (digitsValue cs)) (int (digitsValue ss)))"
proof -
  have a: "takeWhile (\<lambda>c. c \<noteq> CHR ''d'') (cs @ CHR ''d'' # ss) = cs"
    and b: "dropWhile (\<lambda>c. c \<noteq> CHR ''d'') (cs @ CHR ''d'' # ss) = CHR ''d'' # ss"
    using takeWhile_not_d [of cs ss] assms(1) by (auto simp: allDigits_def)
  have c: "takeWhile (\<lambda>c. c \<noteq> CHR ''d'') ss = ss"
    using takeWhile_not_d_all [of ss] assms(2) by (auto simp: allDigits_def)
  have ne: "cs \<noteq> []" using assms(1) by (auto simp: allDigits_def)
  show ?thesis
    unfolding parseDice_def Let_def a b
    using ne assms by (simp add: c parseInt_digits)
qed

lemma parseTokens_single:
  "t \<noteq> ''('' \<Longrightarrow> t \<noteq> '')'' \<Longrightarrow> parseTokens 0 [] [t] = classifyToken t"
  by (simp split: option.splits)

lemma tokenizeFormula_minus_number:
  assumes "allDigits ds"
  shows "tokenizeFormula (CHR ''-'' # ds) = Some [Operand (NumberTerm (- of_nat (digitsValue ds)))]"
proof -
  have cl: "cleanFormula (CHR ''-'' # ds) = CHR ''-'' # ds"
    using assms cleanFormula_digits [of ds]
    by (simp add: cleanFormula_Cons allDigits_def isSpace_def toLowerChar_def)
  have rm: "regexMatch ''+-*/()'' (CHR ''-'' # ds) = [''-'', ds]"
    using assms by (simp only: regexMatch_minus regexMatch_digits)
  have fs: "foldSigns True [] [''-'', ds] = [CHR ''-'' # ds]"
    using foldSigns_minus [of True "[]" ds "[]"] digits_nonempty_head [OF assms]
    by (simp add: signPosition_def)
  have nd: "ds \<noteq> []" using assms by (simp add: allDigits_def)
  have pt: "parseTokens 0 [] [CHR ''-'' # ds] = classifyToken (CHR ''-'' # ds)"
    using nd by (intro parseTokens_single) auto
  show ?thesis
    unfolding tokenizeFormula_def Let_def cl rm fs pt
    using classifyToken_minus_number [OF matchUnsignedNumber_digits [OF assms]]
      parseUnsigned_digits [OF assms]
    by simp
qed

lemma tokenizeFormula_minus_dice:
  assumes "allDigits cs" "allDigits ss" "0 < digitsValue cs" "0 < digitsValue ss"
  shows "tokenizeFormula (CHR ''-'' # cs @ CHR ''d'' # ss) =
         Some [Operand (NumberTerm (- 1)), OperatorTerm Times,
               Operand (DiceTerm (int (digitsValue cs)) (int (digitsValue ss)))]"
proof -
  let ?n = "cs @ CHR ''d'' # ss"
  have cl: "cleanFormula (CHR ''-'' # ?n) = CHR ''-'' # ?n"
    using assms(1,2) cleanFormula_digits [of cs] cleanFormula_digits [of ss]
    by (simp add: cleanFormula_Cons cleanFormula_append allDigits_def isSpace_def toLowerChar_def)
  have rm: "regexMatch ''+-*/()'' (CHR ''-'' # ?n) = [''-'', ?n]"
    using assms(1,2) by (simp only: regexMatch_minus regexMatch_dice)
  have hd: "?n \<noteq> [] \<and> isDigit (hd ?n)"
    using digits_nonempty_head [OF assms(1)] by (cases cs) auto
  have fs: "foldSigns True [] [''-'', ?n] = [CHR ''-'' # ?n]"
    using foldSigns_minus [of True "[]" ?n "[]"] hd
    by (simp add: signPosition_def)
  have pt: "parseTokens 0 [] [CHR ''-'' # ?n] = classifyToken (CHR ''-'' # ?n)"
    by (intro parseTokens_single) auto
  show ?thesis
    unfolding tokenizeFormula_def Let_def cl rm fs pt
    using classifyToken_minus_dice [OF matchDice_digits [OF assms(1,2)]]
      parseDice_digits [OF assms]
    by simp
qed

lemma takeWhile_digits_app:
  assumes "list_all isDigit ds" "rest = [] \<or> \<not> isDigit (hd rest)"
  shows "takeWhile isDigit (ds @ rest) = ds \<and> dropWhile isDigit (ds @ rest) = rest"
proof (cases rest)
  case Nil
  then show ?thesis using takeWhile_all [OF assms(1)] by simp
next
  case (Cons r rs)
  then have "\<not> isDigit r" using assms(2) by simp
  then show ?thesis using assms(1) unfolding Cons by (induction ds) auto
qed

lemma number_shape:
  assumes "matchUnsignedNumber s"
  shows "allDigits s \<or> (\<exists>ip fr. s = ip @ CHR ''.'' # fr \<and> allDigits ip \<and> allDigits fr)"
proof -
  let ?ip = "takeWhile isDigit s"
  have s: "s = ?ip @ dropWhile isDigit s" by simp
  have ip: "allDigits ?ip"
    using assms by (auto simp: matchUnsignedNumber_def allDigits_def list_all_iff dest: set_takeWhileD)
  show ?thesis
  proof (cases "dropWhile isDigit s")
    case Nil
    then have "s = ?ip" by (metis append_Nil2 takeWhile_dropWhile_id)
    then show ?thesis using ip by metis
  next
    case (Cons r rs)
    then have "r = CHR ''.''" "allDigits rs" using assms by (auto simp: matchUnsignedNumber_def)
    then show ?thesis using ip Cons by (metis takeWhile_dropWhile_id)
  qed
qed

lemma regexMatch_digits_then:
  assumes "allDigits ds" "boundary rest"
  shows "regexMatch singles (ds @ rest) = ds # regexMatch singles rest"
proof -
  obtain c cs where c: "ds = c # cs" and dc: "isDigit c"
    using assms(1) by (cases ds) (auto simp: allDigits_def)
  have la: "list_all isDigit ds" using assms(1) by (simp add: allDigits_def)
  have b: "rest = [] \<or> \<not> isDigit (hd rest)" using assms(2) by (auto simp: boundary_def)
  have t: "takeWhile isDigit (c # cs @ rest) = c # cs"
    and d: "dropWhile isDigit (c # cs @ rest) = rest"
    using takeWhile_digits_app [OF la b] c by auto
  show ?thesis
  proof (cases rest)
    case Nil
    then show ?thesis using regexMatch_digits [OF assms(1)] by simp
  next
    case (Cons r rs)
    then have r: "r \<noteq> CHR ''d''" "r \<noteq> CHR ''.''" using assms(2) by (auto simp: boundary_def)
    have "regexMatch singles (c # cs @ rest) = (c # cs) # regexMatch singles rest"
      unfolding Cons
      using t d r dc unfolding Cons
      by (simp only: regexMatch.simps if_True Let_def list.case simp_thms if_False)
    then show ?thesis using c by simp
  qed
qed

lemma regexMatch_pair_then:
  assumes "allDigits ip" "allDigits fr" "sep = CHR ''d'' \<or> sep = CHR ''.''"
    "rest = [] \<or> \<not> isDigit (hd rest)"
  shows "regexMatch singles ((ip @ sep # fr) @ rest) = (ip @ sep # fr) # regexMatch singles rest"
proof -
  obtain c cs where c: "ip = c # cs" and dc: "isDigit c"
    using assms(1) by (cases ip) (auto simp: allDigits_def)
  have nd: "\<not> isDigit sep" using assms(3) by (auto simp: isDigit_def)
  have la: "list_all isDigit ip" using assms(1) by (simp add: allDigits_def)
  have t: "takeWhile isDigit (c # cs @ sep # fr @ rest) = c # cs"
    and d: "dropWhile isDigit (c # cs @ sep # fr @ rest) = sep # fr @ rest"
    using takeWhile_digits_app [OF la, of "sep # fr @ rest"] nd c by auto
  have lf: "list_all isDigit fr" and fne: "fr \<noteq> []" using assms(2) by (auto simp: allDigits_def)
  have t2: "takeWhile isDigit (fr @ rest) = fr" and d2: "dropWhile isDigit (fr @ rest) = rest"
    using takeWhile_digits_app [OF lf assms(4)] by auto
  have "regexMatch singles (c # cs @ sep # fr @ rest) =
        ((c # cs) @ sep # fr) # regexMatch singles rest"
    using t d t2 d2 fne assms(3) dc
    by (simp only: regexMatch.simps if_True Let_def list.case simp_thms if_False)
  then show ?thesis using c by simp
qed

lemma regexMatch_operand_then:
  assumes "validLexeme l" "isOperand l" "boundary rest"
  shows "regexMatch singles (lexemeText l @ rest) = lexemeText l # regexMatch singles rest"
proof (cases l)
  case (NumberLit s)
  have b: "rest = [] \<or> \<not> isDigit (hd rest)" using assms(3) by (auto simp: boundary_def)
  from assms(1) NumberLit have "matchUnsignedNumber s" by simp
  then consider "allDigits s"
    | ip fr where "s = ip @ CHR ''.'' # fr" "allDigits ip" "allDigits fr"
    using number_shape by blast
  then show ?thesis
  proof cases
    case 1
    then show ?thesis using regexMatch_digits_then [OF 1 assms(3)] NumberLit by simp
  next
    case 2
    then show ?thesis using regexMatch_pair_then [OF 2(2,3) _ b, of "CHR ''.''" singles] NumberLit
      by simp
  qed
next
  case (DiceLit c s)
  have b: "rest = [] \<or> \<not> isDigit (hd rest)" using assms(3) by (auto simp: boundary_def)
  from assms(1) DiceLit have "allDigits c" "allDigits s" by simp_all
  then show ?thesis using regexMatch_pair_then [OF _ _ _ b, of c s "CHR ''d''" singles] DiceLit
    by simp
next
  case (OperatorSym op)
  then show ?thesis using assms(2) by simp
next
  case (ParenSym p)
  then show ?thesis using assms(2) by simp
qed

lemma symbol_text:
  "\<not> isOperand l \<Longrightarrow>
   \<exists>c. lexemeText l = [c] \<and> c \<in> set ''+-*/()'' \<and> \<not> isDigit c \<and> c \<noteq> CHR ''d'' \<and> c \<noteq> CHR ''.''"
proof (cases l)
  case (OperatorSym op)
  then show ?thesis by (cases op) (simp_all add: isDigit_def)
next
  case (ParenSym p)
  then show ?thesis by (cases p) (simp_all add: isDigit_def)
qed simp_all

lemma boundary_text:
  assumes "separated (l # ls)" "isOperand l"
  shows "boundary (concat (map lexemeText ls))"
proof (cases ls)
  case Nil
  then show ?thesis by (simp add: boundary_def)
next
  case (Cons n r)
  then have "\<not> isOperand n" using assms by simp
  then obtain c where "lexemeText n = [c]" "\<not> isDigit c" "c \<noteq> CHR ''d''" "c \<noteq> CHR ''.''"
    using symbol_text by blast
  then show ?thesis using Cons by (simp add: boundary_def)
qed

lemma separated_tail: "separated (l # ls) \<Longrightarrow> separated ls"
  by (cases ls) simp_all

lemma regexMatch_lexemes:
  "list_all validLexeme ls \<Longrightarrow> separated ls \<Longrightarrow>
   regexMatch ''+-*/()'' (concat (map lexemeText ls)) = map lexemeText ls"
proof (induction ls)
  case Nil
  then show ?case by simp
next
  case (Cons l ls)
  have ih: "regexMatch ''+-*/()'' (concat (map lexemeText ls)) = map lexemeText ls"
    using Cons separated_tail by auto
  show ?case
  proof (cases "isOperand l")
    case True
    have "regexMatch ''+-*/()'' (lexemeText l @ concat (map lexemeText ls)) =
          lexemeText l # regexMatch ''+-*/()'' (concat (map lexemeText ls))"
      using Cons.prems True by (intro regexMatch_operand_then boundary_text) auto
    then show ?thesis using ih by simp
  next
    case False
    then obtain c where c: "lexemeText l = [c]" "c \<in> set ''+-*/()''" "\<not> isDigit c"
      using symbol_text by blast
    have "regexMatch ''+-*/()'' (c # concat (map lexemeText ls)) =
          [c] # regexMatch ''+-*/()'' (concat (map lexemeText ls))"
      using c(2,3) by (simp only: regexMatch.simps if_False if_True)
    then show ?thesis using ih c by simp
  qed
qed


lemma operand_head:
  assumes "validLexeme l" "isOperand l"
  shows "lexemeText l \<noteq> [] \<and> isDigit (hd (lexemeText l))"
proof (cases l)
  case (NumberLit s)
  then have "matchUnsignedNumber s" using assms(1) by simp
  then have "takeWhile isDigit s \<noteq> []" by (simp add: matchUnsignedNumber_def)
  then show ?thesis using NumberLit by (cases s) (auto split: if_splits)
next
  case (DiceLit c s)
  then have "allDigits c" using assms(1) by simp
  then show ?thesis using DiceLit digits_nonempty_head [of c] by (cases c) auto
next
  case (OperatorSym op)
  then show ?thesis using assms(2) by simp
next
  case (ParenSym p)
  then show ?thesis using assms(2) by simp
qed

lemma symbol_no_digit: "\<not> isOperand l \<Longrightarrow> \<not> (lexemeText l \<noteq> [] \<and> isDigit (hd (lexemeText l)))"
  using symbol_text [of l] by auto

lemma sign_text:
  assumes "validLexeme l"
  shows "(lexemeText l = ''+'' \<or> lexemeText l = ''-'') \<longleftrightarrow> isSign l"
proof (cases l)
  case (OperatorSym op)
  then show ?thesis by (cases op) simp_all
next
  case (ParenSym p)
  then show ?thesis by (cases p) simp_all
next
  case (NumberLit s)
  then show ?thesis using operand_head [OF assms] by (auto simp: isDigit_def)
next
  case (DiceLit c s)
  then show ?thesis using operand_head [OF assms] by (auto simp: isDigit_def)
qed

lemma signPosition_pushed:
  assumes "validLexeme l"
  shows "signPosition False (processed @ [lexemeText l]) = signAfter l"
proof (cases l)
  case (OperatorSym op)
  then show ?thesis by (cases op) (simp_all add: signPosition_def)
next
  case (ParenSym p)
  then show ?thesis by (cases p) (simp_all add: signPosition_def)
next
  case (NumberLit s)
  then show ?thesis using operand_head [OF assms] by (auto simp: isDigit_def signPosition_def)
next
  case (DiceLit c s)
  then show ?thesis using operand_head [OF assms] by (auto simp: isDigit_def signPosition_def)
qed

lemma signPosition_glued: "t \<noteq> [] \<Longrightarrow> signPosition False (processed @ [CHR ''-'' # t]) = False"
  by (simp add: signPosition_def)

lemma foldSigns_push:
  "\<not> ((t = ''+'' \<or> t = ''-'') \<and> signPosition first processed) \<Longrightarrow>
   foldSigns first processed (t # n # ts) = foldSigns False (processed @ [t]) (n # ts)"
proof -
  assume a: "\<not> ((t = ''+'' \<or> t = ''-'') \<and> signPosition first processed)"
  have c: "((t = ''+'' \<or> t = ''-'') \<and> signPosition first processed \<and> (n \<noteq> [] \<and> isDigit (hd n)))
           = False"
    using a by blast
  show ?thesis by (simp only: foldSigns.simps c if_False)
qed

lemma gluedTokens_fold:
  "sp \<and> l = OperatorSym Minus \<and> isOperand n \<Longrightarrow>
   gluedTokens sp (l # n # ls) = (CHR ''-'' # lexemeText n) # gluedTokens False ls"
  by simp

lemma gluedTokens_push:
  "\<not> (sp \<and> l = OperatorSym Minus \<and> isOperand n) \<Longrightarrow>
   gluedTokens sp (l # n # ls) = lexemeText l # gluedTokens (signAfter l) (n # ls)"
  by (simp only: gluedTokens.simps if_False)

lemma foldedTerms_fold:
  "sp \<and> l = OperatorSym Minus \<and> isOperand n \<Longrightarrow>
   foldedTerms sp (l # n # ls) = negatedTerms n @ foldedTerms False ls"
  by simp

lemma foldedTerms_push:
  "\<not> (sp \<and> l = OperatorSym Minus \<and> isOperand n) \<Longrightarrow>
   foldedTerms sp (l # n # ls) = plainTerm l # foldedTerms (signAfter l) (n # ls)"
  by (simp only: foldedTerms.simps if_False)

lemma foldSigns_lexemes:
  "list_all validLexeme ls \<Longrightarrow> signsBeforeOperands sp ls \<Longrightarrow> signPosition first processed = sp \<Longrightarrow>
   foldSigns first processed (map lexemeText ls) = processed @ gluedTokens sp ls"
proof (induction sp ls arbitrary: first processed rule: gluedTokens.induct)
  case (1 sp)
  then show ?case by simp
next
  case (2 sp l)
  then show ?case by simp
next
  case (3 sp l n ls)
  have vl: "validLexeme l" and vn: "validLexeme n" and vls: "list_all validLexeme ls"
    using "3.prems"(1) by simp_all
  have m: "map lexemeText (l # n # ls) = lexemeText l # lexemeText n # map lexemeText ls"
    by (simp only: list.map)
  show ?case
  proof (cases "sp \<and> l = OperatorSym Minus \<and> isOperand n")
    case True
    have hd: "lexemeText n \<noteq> []" "isDigit (hd (lexemeText n))"
      using operand_head [OF vn] True by simp_all
    have sc: "signsBeforeOperands False ls" using "3.prems"(2) True by simp
    have sp: "signPosition first processed" using "3.prems"(3) True by simp
    have tl: "lexemeText l = ''-''" using True by simp
    have "foldSigns first processed (map lexemeText (l # n # ls)) =
          foldSigns False (processed @ [CHR ''-'' # lexemeText n]) (map lexemeText ls)"
      unfolding m tl using sp hd by (rule foldSigns_minus)
    also have "\<dots> = (processed @ [CHR ''-'' # lexemeText n]) @ gluedTokens False ls"
      using "3.IH"(1) [OF True vls sc signPosition_glued [OF hd(1)]] .
    finally show ?thesis
      unfolding gluedTokens_fold [OF True] by (simp only: append_assoc append_Cons append_Nil)
  next
    case False
    have ns: "\<not> (sp \<and> isSign l)"
    proof
      assume a: "sp \<and> isSign l"
      then have "l = OperatorSym Minus \<and> isOperand n"
        using "3.prems"(2) by (simp only: signsBeforeOperands.simps if_True simp_thms)
      then show False using a False by blast
    qed
    have sc: "signsBeforeOperands (signAfter l) (n # ls)"
      using "3.prems"(2) ns by (simp only: signsBeforeOperands.simps if_False)
    have nf: "\<not> ((lexemeText l = ''+'' \<or> lexemeText l = ''-'') \<and> signPosition first processed)"
      using ns sign_text [OF vl] "3.prems"(3) by blast
    have vn': "list_all validLexeme (n # ls)" using vn vls by simp
    have "foldSigns first processed (map lexemeText (l # n # ls)) =
          foldSigns False (processed @ [lexemeText l]) (lexemeText n # map lexemeText ls)"
      unfolding m using nf by (rule foldSigns_push)
    also have "\<dots> = foldSigns False (processed @ [lexemeText l]) (map lexemeText (n # ls))"
      by (simp only: list.map)
    also have "\<dots> = (processed @ [lexemeText l]) @ gluedTokens (signAfter l) (n # ls)"
      using "3.IH"(2) [OF False vn' sc signPosition_pushed [OF vl]] .
    finally show ?thesis
      unfolding gluedTokens_push [OF False] by (simp only: append_assoc append_Cons append_Nil)
  qed
qed

lemma parseFloat_unsigned: "matchUnsignedNumber s \<Longrightarrow> parseFloat s = parseUnsigned s"
  by (cases s) (auto simp: parseFloat_def matchUnsignedNumber_def isDigit_def split: if_splits)

lemma matchNumber_unsigned: "matchUnsignedNumber s \<Longrightarrow> matchNumber s"
  by (cases s) (auto simp: matchNumber_def matchUnsignedNumber_def isDigit_def split: if_splits)

lemma classifyToken_operator: "classifyToken (operatorText op) = Some [OperatorTerm op]"
  by (cases op) (simp_all, code_simp+)

lemma classifyToken_paren: "classifyToken (lexemeText (ParenSym p)) = Some [ParenthesisTerm p]"
  by (cases p) (simp_all, code_simp+)

lemma classifyToken_plain:
  assumes "validLexeme l"
  shows "classifyToken (lexemeText l) = Some [plainTerm l]"
proof (cases l)
  case (NumberLit s)
  then have m: "matchUnsignedNumber s" using assms by simp
  then have "\<not> matchDice s" using matchDice_not_number by blast
  then show ?thesis using NumberLit matchNumber_unsigned [OF m] by (simp add: classifyToken_def)
next
  case (DiceLit c s)
  then have v: "allDigits c" "allDigits s" "0 < digitsValue c" "0 < digitsValue s"
    using assms by simp_all
  show ?thesis using DiceLit matchDice_digits [OF v(1,2)] parseDice_digits [OF v]
    by (simp add: classifyToken_def)
next
  case (OperatorSym op)
  then show ?thesis using classifyToken_operator by simp
next
  case (ParenSym p)
  then show ?thesis using classifyToken_paren by simp
qed

lemma classifyToken_negated:
  assumes "validLexeme n" "isOperand n"
  shows "classifyToken (CHR ''-'' # lexemeText n) = Some (negatedTerms n)"
proof (cases n)
  case (NumberLit s)
  then have m: "matchUnsignedNumber s" using assms by simp
  show ?thesis using NumberLit classifyToken_minus_number [OF m] parseFloat_unsigned [OF m]
    by simp
next
  case (DiceLit c s)
  then have v: "allDigits c" "allDigits s" "0 < digitsValue c" "0 < digitsValue s"
    using assms by simp_all
  show ?thesis
    using DiceLit classifyToken_minus_dice [OF matchDice_digits [OF v(1,2)]] parseDice_digits [OF v]
    by simp
next
  case (OperatorSym op)
  then show ?thesis using assms(2) by simp
next
  case (ParenSym p)
  then show ?thesis using assms(2) by simp
qed

lemma balanced_negated: "isOperand n \<Longrightarrow> balanced k (negatedTerms n @ r) = balanced k r"
  by (cases n) simp_all

lemma parseTokens_step:
  "t \<noteq> ''('' \<Longrightarrow> t \<noteq> '')'' \<Longrightarrow> 0 \<le> k \<Longrightarrow> classifyToken t = Some p \<Longrightarrow>
   parseTokens k acc (t # ts) = parseTokens k (acc @ p) ts"
  by simp

lemma parseTokens_open:
  "0 \<le> k \<Longrightarrow> parseTokens k acc (''('' # ts) = parseTokens (k + 1) (acc @ [ParenthesisTerm LParen]) ts"
  using classifyToken_paren [of LParen] by simp

lemma parseTokens_close:
  "parseTokens k acc ('')'' # ts) =
     (if 1 \<le> k then parseTokens (k - 1) (acc @ [ParenthesisTerm RParen]) ts else None)"
  using classifyToken_paren [of RParen] by simp

lemma not_paren_text: "\<not> (\<exists>p. l = ParenSym p) \<Longrightarrow> validLexeme l \<Longrightarrow>
   lexemeText l \<noteq> ''('' \<and> lexemeText l \<noteq> '')''"
proof (cases l)
  case (OperatorSym op)
  then show ?thesis by (cases op) simp_all
next
  case (NumberLit s)
  assume "validLexeme l"
  then show ?thesis using operand_head [of l] NumberLit by (auto simp: isDigit_def)
next
  case (DiceLit c s)
  assume "validLexeme l"
  then show ?thesis using operand_head [of l] DiceLit by (auto simp: isDigit_def)
qed simp

lemma balanced_plain: "\<not> (\<exists>p. l = ParenSym p) \<Longrightarrow> balanced k (plainTerm l # r) = balanced k r"
  by (cases l) simp_all

lemma parseTokens_plain:
  assumes "validLexeme l" "0 \<le> k"
    and ih: "\<And>k' acc'. 0 \<le> k' \<Longrightarrow>
           parseTokens k' acc' ts = (if balanced k' r then Some (acc' @ r) else None)"
  shows "parseTokens k acc (lexemeText l # ts) =
         (if balanced k (plainTerm l # r) then Some (acc @ plainTerm l # r) else None)"
proof (cases "\<exists>p. l = ParenSym p")
  case False
  have np: "lexemeText l \<noteq> ''(''" "lexemeText l \<noteq> '')''"
    using not_paren_text [OF False assms(1)] by simp_all
  have "parseTokens k acc (lexemeText l # ts) = parseTokens k (acc @ [plainTerm l]) ts"
    using np assms(2) classifyToken_plain [OF assms(1)] by (rule parseTokens_step)
  also have "\<dots> = (if balanced k r then Some ((acc @ [plainTerm l]) @ r) else None)"
    using assms(2) by (rule ih)
  finally show ?thesis by (simp only: balanced_plain [OF False] append_assoc append_Cons append_Nil)
next
  case True
  then obtain p where p: "l = ParenSym p" by blast
  show ?thesis
  proof (cases p)
    case LParen
    have "parseTokens k acc (''('' # ts) = parseTokens (k + 1) (acc @ [ParenthesisTerm LParen]) ts"
      using assms(2) by (rule parseTokens_open)
    also have "\<dots> = (if balanced (k + 1) r then Some ((acc @ [ParenthesisTerm LParen]) @ r) else None)"
      using assms(2) by (intro ih) simp
    finally show ?thesis unfolding p LParen by simp
  next
    case RParen
    show ?thesis
    proof (cases "1 \<le> k")
      case True
      have "parseTokens k acc ('')'' # ts) = parseTokens (k - 1) (acc @ [ParenthesisTerm RParen]) ts"
        using True by (simp only: parseTokens_close if_True)
      also have "\<dots> = (if balanced (k - 1) r then Some ((acc @ [ParenthesisTerm RParen]) @ r) else None)"
        using True by (intro ih) simp
      finally show ?thesis unfolding p RParen using True by simp
    next
      case False
      have "parseTokens k acc ('')'' # ts) = None"
        using False by (simp only: parseTokens_close if_False)
      then show ?thesis unfolding p RParen using False by simp
    qed
  qed
qed

lemma parseTokens_glued:
  "list_all validLexeme ls \<Longrightarrow> 0 \<le> k \<Longrightarrow>
   parseTokens k acc (gluedTokens sp ls) =
     (if balanced k (foldedTerms sp ls) then Some (acc @ foldedTerms sp ls) else None)"
proof (induction sp ls arbitrary: k acc rule: gluedTokens.induct)
  case (1 sp)
  then show ?case by simp
next
  case (2 sp l)
  have "parseTokens k acc (lexemeText l # []) =
        (if balanced k (plainTerm l # []) then Some (acc @ plainTerm l # []) else None)"
    using "2.prems" by (intro parseTokens_plain) simp_all
  then show ?case by (simp only: gluedTokens.simps foldedTerms.simps)
next
  case (3 sp l n ls)
  have vl: "validLexeme l" and vn: "validLexeme n" and vls: "list_all validLexeme ls"
    using "3.prems"(1) by simp_all
  show ?case
  proof (cases "sp \<and> l = OperatorSym Minus \<and> isOperand n")
    case True
    have on: "isOperand n" using True by simp
    note g = gluedTokens_fold [OF True, of ls]
    note f = foldedTerms_fold [OF True, of ls]
    have "parseTokens k acc ((CHR ''-'' # lexemeText n) # gluedTokens False ls) =
          parseTokens k (acc @ negatedTerms n) (gluedTokens False ls)"
      using "3.prems"(2) classifyToken_negated [OF vn on] by (intro parseTokens_step) simp_all
    also have "\<dots> = (if balanced k (foldedTerms False ls)
                     then Some ((acc @ negatedTerms n) @ foldedTerms False ls) else None)"
      using "3.IH"(1) [OF True vls "3.prems"(2)] .
    finally show ?thesis unfolding g f by (simp only: balanced_negated [OF on] append_assoc)
  next
    case False
    note g = gluedTokens_push [OF False, of ls]
    note f = foldedTerms_push [OF False, of ls]
    have vn': "list_all validLexeme (n # ls)" using vn vls by simp
    show ?thesis unfolding g f
      using vl "3.prems"(2) "3.IH"(2) [OF False vn'] by (rule parseTokens_plain)
  qed
qed

lemma lexemeText_nonempty: "validLexeme l \<Longrightarrow> lexemeText l \<noteq> []"
  using operand_head [of l] symbol_text [of l] by (cases "isOperand l") auto

lemma tokenizeFormula_lexemes:
  assumes "cleanFormula formula = concat (map lexemeText ls)"
    "list_all validLexeme ls" "separated ls" "signsBeforeOperands True ls"
  shows "tokenizeFormula formula =
         (if balanced 0 (foldedTerms True ls) then Some (foldedTerms True ls) else None)"
proof (cases ls)
  case Nil
  then show ?thesis using assms(1) by (simp add: tokenizeFormula_def)
next
  case (Cons l r)
  then have "lexemeText l \<noteq> []" using assms(2) lexemeText_nonempty by simp
  moreover have "cleanFormula formula = lexemeText l @ concat (map lexemeText r)"
    using assms(1) Cons by simp
  ultimately have ne: "cleanFormula formula \<noteq> []" by simp
  have sp: "signPosition True [] = True" by (simp add: signPosition_def)
  have "tokenizeFormula formula =
        parseTokens 0 [] (foldSigns True [] (regexMatch ''+-*/()'' (cleanFormula formula)))"
    unfolding tokenizeFormula_def Let_def using ne by (simp only: if_False)
  also have "\<dots> = parseTokens 0 [] (foldSigns True [] (map lexemeText ls))"
    unfolding assms(1) by (simp only: regexMatch_lexemes [OF assms(2,3)])
  also have "\<dots> = parseTokens 0 [] ([] @ gluedTokens True ls)"
    by (simp only: foldSigns_lexemes [OF assms(2,4) sp])
  also have "\<dots> = (if balanced 0 (foldedTerms True ls) then Some ([] @ foldedTerms True ls) else None)"
    using parseTokens_glued [OF assms(2), of 0 "[]" True] by simp
  finally show ?thesis by (simp only: append_Nil)
qed


lemma foldedTerms_plain:
  "\<not> (sp \<and> l = OperatorSym Minus \<and> rest \<noteq> [] \<and> isOperand (hd rest)) \<Longrightarrow>
   foldedTerms sp (l # rest) = plainTerm l # foldedTerms (signAfter l) rest"
  by (cases rest) auto

lemma foldedTerms_prefix:
  "isOperand n \<Longrightarrow> foldedTerms True (OperatorSym Minus # n # rest) = negatedTerms n @ foldedTerms False rest"
  by simp

lemma foldedTerms_sexpr:
  "foldedTerms True (sexprLexemes e @ rest) = spec_terms e @ foldedTerms False rest"
proof (induction e arbitrary: rest)
  case (SNumber neg s)
  show ?case
  proof (cases neg)
    case True
    then show ?thesis using foldedTerms_prefix [of "NumberLit s" rest] by simp
  next
    case False
    then show ?thesis using foldedTerms_plain [of True "NumberLit s" rest] by simp
  qed
next
  case (SDice neg c s)
  show ?case
  proof (cases neg)
    case True
    then show ?thesis using foldedTerms_prefix [of "DiceLit c s" rest] by simp
  next
    case False
    then show ?thesis using foldedTerms_plain [of True "DiceLit c s" rest] by simp
  qed
next
  case (SBin l op r)
  have "foldedTerms True (sexprLexemes (SBin l op r) @ rest) =
        foldedTerms True (sexprLexemes l @ (OperatorSym op # sexprLexemes r @ rest))"
    by simp
  also have "\<dots> = spec_terms l @ foldedTerms False (OperatorSym op # sexprLexemes r @ rest)"
    by (rule SBin.IH(1))
  also have "foldedTerms False (OperatorSym op # sexprLexemes r @ rest) =
             OperatorTerm op # foldedTerms True (sexprLexemes r @ rest)"
    using foldedTerms_plain [of False "OperatorSym op" "sexprLexemes r @ rest"] by simp
  also have "foldedTerms True (sexprLexemes r @ rest) = spec_terms r @ foldedTerms False rest"
    by (rule SBin.IH(2))
  finally show ?case by simp
next
  case (SGroup e)
  have "foldedTerms True (sexprLexemes (SGroup e) @ rest) =
        foldedTerms True (ParenSym LParen # sexprLexemes e @ (ParenSym RParen # rest))"
    by simp
  also have "\<dots> = ParenthesisTerm LParen # foldedTerms True (sexprLexemes e @ (ParenSym RParen # rest))"
    using foldedTerms_plain [of True "ParenSym LParen" "sexprLexemes e @ (ParenSym RParen # rest)"]
    by simp
  also have "foldedTerms True (sexprLexemes e @ (ParenSym RParen # rest)) =
             spec_terms e @ foldedTerms False (ParenSym RParen # rest)"
    by (rule SGroup.IH)
  also have "foldedTerms False (ParenSym RParen # rest) = ParenthesisTerm RParen # foldedTerms False rest"
    using foldedTerms_plain [of False "ParenSym RParen" rest] by simp
  finally show ?case by simp
qed

lemma signs_plain:
  "\<not> (sp \<and> isSign l) \<Longrightarrow>
   signsBeforeOperands sp (l # rest) = signsBeforeOperands (signAfter l) rest"
  by (cases rest) auto

lemma signs_prefix:
  "isOperand n \<Longrightarrow> signsBeforeOperands True (OperatorSym Minus # n # rest) = signsBeforeOperands False rest"
  by simp

lemma signs_sexpr:
  "signsBeforeOperands True (sexprLexemes e @ rest) = signsBeforeOperands False rest"
proof (induction e arbitrary: rest)
  case (SNumber neg s)
  show ?case
  proof (cases neg)
    case True
    then show ?thesis using signs_prefix [of "NumberLit s" rest] by simp
  next
    case False
    then show ?thesis using signs_plain [of True "NumberLit s" rest] by simp
  qed
next
  case (SDice neg c s)
  show ?case
  proof (cases neg)
    case True
    then show ?thesis using signs_prefix [of "DiceLit c s" rest] by simp
  next
    case False
    then show ?thesis using signs_plain [of True "DiceLit c s" rest] by simp
  qed
next
  case (SBin l op r)
  have "signsBeforeOperands True (sexprLexemes (SBin l op r) @ rest) =
        signsBeforeOperands True (sexprLexemes l @ (OperatorSym op # sexprLexemes r @ rest))"
    by simp
  also have "\<dots> = signsBeforeOperands False (OperatorSym op # sexprLexemes r @ rest)"
    by (rule SBin.IH(1))
  also have "\<dots> = signsBeforeOperands True (sexprLexemes r @ rest)"
    using signs_plain [of False "OperatorSym op" "sexprLexemes r @ rest"] by simp
  also have "\<dots> = signsBeforeOperands False rest"
    by (rule SBin.IH(2))
  finally show ?case .
next
  case (SGroup e)
  have "signsBeforeOperands True (sexprLexemes (SGroup e) @ rest) =
        signsBeforeOperands True (ParenSym LParen # sexprLexemes e @ (ParenSym RParen # rest))"
    by simp
  also have "\<dots> = signsBeforeOperands True (sexprLexemes e @ (ParenSym RParen # rest))"
    using signs_plain [of True "ParenSym LParen" "sexprLexemes e @ (ParenSym RParen # rest)"]
    by simp
  also have "\<dots> = signsBeforeOperands False (ParenSym RParen # rest)"
    by (rule SGroup.IH)
  also have "\<dots> = signsBeforeOperands False rest"
    using signs_plain [of False "ParenSym RParen" rest] by simp
  finally show ?case .
qed

lemma separated_Cons:
  "separated (a # rest) = (\<not> (isOperand a \<and> rest \<noteq> [] \<and> isOperand (hd rest)) \<and> separated rest)"
  by (cases rest) auto

lemma separated_sexpr:
  "rest = [] \<or> \<not> isOperand (hd rest) \<Longrightarrow> separated (sexprLexemes e @ rest) = separated rest"
proof (induction e arbitrary: rest)
  case (SNumber neg s)
  then show ?case by (cases neg) (auto simp: separated_Cons)
next
  case (SDice neg c s)
  then show ?case by (cases neg) (auto simp: separated_Cons)
next
  case (SBin l op r)
  have "separated (sexprLexemes (SBin l op r) @ rest) =
        separated (sexprLexemes l @ (OperatorSym op # sexprLexemes r @ rest))"
    by simp
  also have "\<dots> = separated (OperatorSym op # sexprLexemes r @ rest)"
    by (rule SBin.IH(1)) simp
  also have "\<dots> = separated (sexprLexemes r @ rest)"
    by (simp add: separated_Cons)
  also have "\<dots> = separated rest"
    using SBin.prems by (rule SBin.IH(2))
  finally show ?case .
next
  case (SGroup e)
  have "separated (sexprLexemes (SGroup e) @ rest) =
        separated (ParenSym LParen # sexprLexemes e @ (ParenSym RParen # rest))"
    by simp
  also have "\<dots> = separated (sexprLexemes e @ (ParenSym RParen # rest))"
    by (simp add: separated_Cons)
  also have "\<dots> = separated (ParenSym RParen # rest)"
    by (rule SGroup.IH) simp
  also have "\<dots> = separated rest"
    by (simp add: separated_Cons)
  finally show ?case .
qed

lemma valid_sexpr: "validSexpr e \<Longrightarrow> list_all validLexeme (sexprLexemes e)"
  by (induction e) auto

lemma balanced_sexpr: "0 \<le> k \<Longrightarrow> balanced k (spec_terms e @ r) = balanced k r"
proof (induction e arbitrary: k r)
  case (SBin l op r')
  then show ?case by simp
next
  case (SGroup e)
  have "balanced k (spec_terms (SGroup e) @ r) =
        balanced (k + 1) (spec_terms e @ (ParenthesisTerm RParen # r))"
    by simp
  also have "\<dots> = balanced (k + 1) (ParenthesisTerm RParen # r)"
    using SGroup.prems by (intro SGroup.IH) simp
  also have "\<dots> = balanced k r" using SGroup.prems by simp
  finally show ?case .
qed auto

lemma tokenizeFormula_sexpr:
  assumes "validSexpr e" "cleanFormula formula = sexprText e"
  shows "tokenizeFormula formula = Some (spec_terms e)"
proof -
  have f: "foldedTerms True (sexprLexemes e) = spec_terms e"
    using foldedTerms_sexpr [of e "[]"] by simp
  have s: "signsBeforeOperands True (sexprLexemes e)"
    using signs_sexpr [of e "[]"] by simp
  have p: "separated (sexprLexemes e)"
    using separated_sexpr [of "[]" e] by simp
  have b: "balanced 0 (spec_terms e)"
    using balanced_sexpr [of 0 e "[]"] by simp
  show ?thesis
    using tokenizeFormula_lexemes [OF assms(2) [unfolded sexprText_def] valid_sexpr [OF assms(1)] p s]
    by (simp only: f b if_True)
qed

text \<open>
  Claim C5, as stated, fails. A \<^verbatim>\<open>-\<close> at the start of \<^verbatim>\<open>"-(2)"\<close> is not treated as a sign
  prefix: the loop folds a sign only when the next token starts with a digit, and here the
  \<^verbatim>\<open>-\<close> comes out as an operator term. And \<^verbatim>\<open>"+3"\<close> is not tokenized to the number
  term \<^verbatim>\<open>3\<close>: the \<^verbatim>\<open>+\<close> is glued onto the \<^verbatim>\<open>3\<close>, but the token \<^verbatim>\<open>+3\<close> matches none of the
  patterns of the classification loop, which allow only \<^verbatim>\<open>-\<close> as a sign, and the input is
  rejected (the earlier tokenizer strips the \<^verbatim>\<open>+\<close> and returns the number term \<^verbatim>\<open>3\<close>).
\<close>

theorem sign_folding_counterexample:
  "tokenizeFormula ''-(2)'' =
     Some [OperatorTerm Minus, ParenthesisTerm LParen, Operand (NumberTerm 2),
           ParenthesisTerm RParen] \<and>
   tokenizeFormula ''+3'' = None \<and>
   tokenizeFormula_lib ''+3'' = Some [Operand (NumberTerm 3)]"
  by code_simp

text \<open>
  Claim C5, amended. Let the formula, with its blanks removed and in lower case, be the text
  of a well-formed formula: numbers and dice terms of positive count and sides joined by
  binary operators, with parenthesised sub-formulas, where a number or a dice term may have
  a \<^verbatim>\<open>-\<close> before it (such a \<^verbatim>\<open>-\<close> stands at the start of the formula, after an open parenthesis
  or after another operator). Then the tokenizer treats each such \<^verbatim>\<open>-\<close> as a sign prefix and
  not as a binary operator: before a number the sign is folded into the value, before a
  dice term the three terms \<^verbatim>\<open>-1\<close>, \<^verbatim>\<open>*\<close> and the dice term are emitted. So \<^verbatim>\<open>"-" + digits\<close> is
  tokenized to the single number term of the negated value, and \<^verbatim>\<open>"-" + count + "d" + sides\<close>
  to \<^verbatim>\<open>[-1, *, dice]\<close>; e.g. \<^verbatim>\<open>"-3"\<close> and \<^verbatim>\<open>"-1d6"\<close>, also after a parenthesis and after an
  operator.
\<close>

theorem tokenizeFormula_sign_folding:
  "(validSexpr e \<and> cleanFormula formula = sexprText e \<longrightarrow>
      tokenizeFormula formula = Some (spec_terms e)) \<and>
   (allDigits ds \<longrightarrow>
      tokenizeFormula (CHR ''-'' # ds) =
        Some [Operand (NumberTerm (- of_nat (digitsValue ds)))]) \<and>
   (allDigits cs \<and> allDigits ss \<and> 0 < digitsValue cs \<and> 0 < digitsValue ss \<longrightarrow>
      tokenizeFormula (CHR ''-'' # cs @ CHR ''d'' # ss) =
        Some [Operand (NumberTerm (- 1)), OperatorTerm Times,
              Operand (DiceTerm (int (digitsValue cs)) (int (digitsValue ss)))]) \<and>
   tokenizeFormula ''-3'' = Some [Operand (NumberTerm (- 3))] \<and>
   tokenizeFormula ''-1d6'' =
     Some [Operand (NumberTerm (- 1)), OperatorTerm Times, Operand (DiceTerm 1 6)] \<and>
   tokenizeFormula ''(-3)*-1d6'' =
     Some [ParenthesisTerm LParen, Operand (NumberTerm (- 3)), ParenthesisTerm RParen,
           OperatorTerm Times,
           Operand (NumberTerm (- 1)), OperatorTerm Times, Operand (DiceTerm 1 6)] \<and>
   tokenizeFormula ''2--3'' =
     Some [Operand (NumberTerm 2), OperatorTerm Minus, Operand (NumberTerm (- 3))]"
proof -
  have a: "tokenizeFormula ''-3'' = Some [Operand (NumberTerm (- 3))]"
    by code_simp
  have b: "tokenizeFormula ''-1d6'' =
     Some [Operand (NumberTerm (- 1)), OperatorTerm Times, Operand (DiceTerm 1 6)]"
    by code_simp
  have c: "tokenizeFormula ''(-3)*-1d6'' =
     Some [ParenthesisTerm LParen, Operand (NumberTerm (- 3)), ParenthesisTerm RParen,
           OperatorTerm Times,
           Operand (NumberTerm (- 1)), OperatorTerm Times, Operand (DiceTerm 1 6)]"
    by code_simp
  have d: "tokenizeFormula ''2--3'' =
     Some [Operand (NumberTerm 2), OperatorTerm Minus, Operand (NumberTerm (- 3))]"
    by code_simp
  show ?thesis
    using a b c d tokenizeFormula_sexpr [of e formula]
      tokenizeFormula_minus_number [of ds] tokenizeFormula_minus_dice [of cs ss]
    by blast
qed

theorem tokenizeFormula_sign_folding_witness:
  "validSexpr
     (SBin (SBin (SGroup (SNumber True ''3'')) Times (SDice True ''1'' ''6'')) Minus
        (SNumber False ''2.5'')) \<and>
   cleanFormula '' (-3) * -1D6 - 2.5'' =
     sexprText
       (SBin (SBin (SGroup (SNumber True ''3'')) Times (SDice True ''1'' ''6'')) Minus
          (SNumber False ''2.5'')) \<and>
   tokenizeFormula '' (-3) * -1D6 - 2.5'' =
     Some [ParenthesisTerm LParen, Operand (NumberTerm (- 3)), ParenthesisTerm RParen,
           OperatorTerm Times,
           Operand (NumberTerm (- 1)), OperatorTerm Times, Operand (DiceTerm 1 6),
           OperatorTerm Minus, Operand (NumberTerm (5 / 2))] \<and>
   allDigits ''12'' \<and>
   tokenizeFormula ''-12'' = Some [Operand (NumberTerm (- 12))] \<and>
   allDigits ''10'' \<and> 0 < digitsValue ''12'' \<and> 0 < digitsValue ''10'' \<and>
   tokenizeFormula ''-12d10'' =
     Some [Operand (NumberTerm (- 1)), OperatorTerm Times, Operand (DiceTerm 12 10)]"
proof -
  let ?e = "SBin (SBin (SGroup (SNumber True ''3'')) Times (SDice True ''1'' ''6'')) Minus
              (SNumber False ''2.5'')"
  have g1: "validSexpr ?e" by code_simp
  have g2: "cleanFormula '' (-3) * -1D6 - 2.5'' = sexprText ?e" by code_simp
  have g3: "spec_terms ?e =
     [ParenthesisTerm LParen, Operand (NumberTerm (- 3)), ParenthesisTerm RParen,
      OperatorTerm Times,
      Operand (NumberTerm (- 1)), OperatorTerm Times, Operand (DiceTerm 1 6),
      OperatorTerm Minus, Operand (NumberTerm (5 / 2))]"
    by code_simp
  have h4: "allDigits ''12''" by code_simp
  have h5: "allDigits ''10''" by code_simp
  have h6: "0 < digitsValue ''12''" by code_simp
  have h7: "0 < digitsValue ''10''" by code_simp
  note t = tokenizeFormula_sign_folding [where formula = "'' (-3) * -1D6 - 2.5''" and e = ?e
      and ds = "''12''" and cs = "''12''" and ss = "''10''"]
  have r1: "tokenizeFormula '' (-3) * -1D6 - 2.5'' = Some (spec_terms ?e)"
    using t g1 g2 by blast
  have r1': "tokenizeFormula '' (-3) * -1D6 - 2.5'' =
     Some [ParenthesisTerm LParen, Operand (NumberTerm (- 3)), ParenthesisTerm RParen,
           OperatorTerm Times,
           Operand (NumberTerm (- 1)), OperatorTerm Times, Operand (DiceTerm 1 6),
           OperatorTerm Minus, Operand (NumberTerm (5 / 2))]"
    using r1 by (simp only: g3)
  have r4: "tokenizeFormula ''-12'' = Some [Operand (NumberTerm (- of_nat (digitsValue ''12'')))]"
    using t h4 by blast
  have dv: "digitsValue ''12'' = 12" "digitsValue ''10'' = 10" by code_simp+
  have r5: "tokenizeFormula ''-12d10'' =
     Some [Operand (NumberTerm (- 1)), OperatorTerm Times,
           Operand (DiceTerm (int (digitsValue ''12'')) (int (digitsValue ''10'')))]"
    using t h4 h5 h6 h7 by simp
  have r4': "tokenizeFormula ''-12'' = Some [Operand (NumberTerm (- 12))]"
    using r4 by (simp add: dv)
  have r5': "tokenizeFormula ''-12d10'' =
     Some [Operand (NumberTerm (- 1)), OperatorTerm Times, Operand (DiceTerm 12 10)]"
    using r5 by (simp add: dv)
  show ?thesis
    using g1 g2 r1' h4 h5 h6 h7 r4' r5' by (simp only: simp_thms)
qed

lemma dice_count_never_empty: "matchDice t \<Longrightarrow> takeWhile (\<lambda>c. c \<noteq> CHR ''d'') t \<noteq> []"
  by (cases t) (auto simp: matchDice_def isDigit_def)

text \<open>
  Claim C6. For \<^verbatim>\<open>"d6"\<close> the tokenizer returns the number term \<^verbatim>\<open>6\<close>, not the dice term with
  count 1 and 6 sides: the dice alternative of the pattern needs a digit before the \<^verbatim>\<open>d\<close>,
  so the scan moves past the \<^verbatim>\<open>d\<close> and matches \<^verbatim>\<open>6\<close> alone (in the earlier tokenizer too).
  The default \<^verbatim>\<open>countStr === '' ? 1 : ...\<close> is never reached: a token that matches the dice
  pattern of the classification loop has a non-empty \<^verbatim>\<open>countStr\<close>.
\<close>

theorem tokenizeFormula_count_omitted:
  "tokenizeFormula ''d6'' = Some [Operand (NumberTerm 6)] \<and>
   regexMatch ''+-*/()'' ''d6'' = [''6''] \<and>
   tokenizeFormula_lib ''d6'' = Some [Operand (NumberTerm 6)] \<and>
   (matchDice t \<longrightarrow> takeWhile (\<lambda>c. c \<noteq> CHR ''d'') t \<noteq> [])"
proof -
  have a: "tokenizeFormula ''d6'' = Some [Operand (NumberTerm 6)]" by code_simp
  have b: "regexMatch ''+-*/()'' ''d6'' = [''6'']" by code_simp
  have c: "tokenizeFormula_lib ''d6'' = Some [Operand (NumberTerm 6)]" by code_simp
  show ?thesis using a b c dice_count_never_empty by blast
qed

theorem tokenizeFormula_count_omitted_witness:
  "matchDice ''2d6'' \<and> takeWhile (\<lambda>c. c \<noteq> CHR ''d'') ''2d6'' = ''2''"
proof -
  have m: "matchDice ''2d6''" by code_simp
  have "takeWhile (\<lambda>c. c \<noteq> CHR ''d'') ''2d6'' \<noteq> []"
    using m tokenizeFormula_count_omitted [of "''2d6''"] by blast
  moreover have "takeWhile (\<lambda>c. c \<noteq> CHR ''d'') ''2d6'' = ''2''" by simp
  ultimately show ?thesis using m by blast
qed

section \<open>Properties of the evaluator\<close>

lemma evaluate_single: "evaluate [Operand t] m = Inr (fst (resolveTerm m t 0))"
  by (simp add: evaluate_def evaluate_with_def leftoverValues_def finalValue_def
      split: prod.splits)

lemma calculateStats_single_dice:
  "calculateStats [Operand (DiceTerm c s)] =
     \<lparr>min_stat = Num (of_int c), max_stat = Num (of_int c * of_int s),
      avg = Num (of_int c * (of_int s + 1) / 2),
      avgFloored = Num (of_int \<lfloor>(of_int c * (of_int s + 1) / 2 :: rat)\<rfloor>)\<rparr>"
  by (simp add: calculateStats_def evaluate_single)

lemma avgFloored_floor:
  "avgFloored (calculateStats terms) = jsFloor (avg (calculateStats terms))"
  by (simp add: calculateStats_def zeroStats_def split: sum.splits)

text \<open>The operator-precedence loops compute the value of the expression tree.\<close>

lemma pushOperator_flush:
  "pushOperator ap tok vs ops =
     (case flush ap (precedence tok) vs ops of (vs', ops') \<Rightarrow> (vs', OpSym tok # ops'))"
  by (induction ap tok vs ops rule: pushOperator.induct) auto

lemma closeParen_flush:
  "closeParen ap vs ops =
     (case flush ap 0 vs ops of
        (vs', OpenSym # ops') \<Rightarrow> Inr (vs', ops')
      | (vs', other) \<Rightarrow> Inl MismatchedParentheses)"
  by (induction ap vs ops rule: closeParen.induct) auto

lemma drainOps_flush:
  "drainOps ap vs ops =
     (case flush ap 0 vs ops of
        (vs', []) \<Rightarrow> Inr vs'
      | (vs', other) \<Rightarrow> Inl MismatchedParentheses)"
  by (induction ap vs ops rule: drainOps.induct) auto

lemma flush_guard: "guard q ops \<Longrightarrow> flush ap q vs ops = (vs, ops)"
  by (induction q ops rule: guard.induct) auto

lemma flush_flush:
  "q \<le> q' \<Longrightarrow> flush ap q' vs ops = (vs', ops') \<Longrightarrow> flush ap q vs' ops' = flush ap q vs ops"
  by (induction ap q' vs ops rule: flush.induct) (auto split: if_splits)

lemma guard_mono: "guard q ops \<Longrightarrow> q \<le> q' \<Longrightarrow> guard q' ops"
  by (induction q ops rule: guard.induct) auto


lemma evalTokens_expr:
  assumes "spec_tree e" "guard (topprec e) ops" "spec_value resolve ap e k = (v, k')"
  shows "\<exists>vs' ops'.
           (\<forall>rest. evalTokens resolve ap (exprTerms e @ rest) vs ops k =
                   evalTokens resolve ap rest vs' ops' k') \<and>
           (\<forall>q \<le> topprec e. flush ap q vs' ops' = flush ap q (v # vs) ops)"
  using assms
proof (induction e arbitrary: vs ops k v k')
  case (Atom t)
  then show ?case by auto
next
  case (Group e)
  have g: "guard (topprec e) (OpenSym # ops)" by simp
  from Group.IH [OF _ g, of k v k' vs] Group.prems
  obtain vs1 ops1 where
    run: "\<And>rest. evalTokens resolve ap (exprTerms e @ rest) vs (OpenSym # ops) k =
                   evalTokens resolve ap rest vs1 ops1 k'"
    and fl: "\<And>q. q \<le> topprec e \<Longrightarrow> flush ap q vs1 ops1 = flush ap q (v # vs) (OpenSym # ops)"
    by auto
  have "flush ap 0 vs1 ops1 = (v # vs, OpenSym # ops)"
    using fl [of 0] by simp
  then have c: "closeParen ap vs1 ops1 = Inr (v # vs, ops)"
    by (simp add: closeParen_flush)
  have "evalTokens resolve ap (exprTerms (Group e) @ rest) vs ops k =
        evalTokens resolve ap rest (v # vs) ops k'" for rest
    using run [of "ParenthesisTerm RParen # rest"] c by simp
  then show ?case by blast
next
  case (Bin l op r)
  obtain vl k1 where sl: "spec_value resolve ap l k = (vl, k1)"
    by (cases "spec_value resolve ap l k")
  obtain vr k2 where sr: "spec_value resolve ap r k1 = (vr, k2)"
    by (cases "spec_value resolve ap r k1")
  have v: "v = ap op (Some vr) (Some vl)" and k': "k' = k2"
    using Bin.prems(3) sl sr by auto
  have pl: "spec_tree l" and pr: "spec_tree r" and le: "precedence op \<le> topprec l"
    and lt: "precedence op < topprec r"
    using Bin.prems(1) by auto
  have gp: "guard (precedence op) ops" using Bin.prems(2) by simp
  have gl: "guard (topprec l) ops" using gp le by (rule guard_mono)
  from Bin.IH(1) [OF pl gl sl, of vs]
  obtain vs1 ops1 where
    run1: "\<And>rest. evalTokens resolve ap (exprTerms l @ rest) vs ops k =
                    evalTokens resolve ap rest vs1 ops1 k1"
    and fl1: "\<And>q. q \<le> topprec l \<Longrightarrow> flush ap q vs1 ops1 = flush ap q (vl # vs) ops"
    by auto
  have "flush ap (precedence op) vs1 ops1 = (vl # vs, ops)"
    using fl1 [OF le] flush_guard [OF gp] by simp
  then have push: "pushOperator ap op vs1 ops1 = (vl # vs, OpSym op # ops)"
    by (simp add: pushOperator_flush)
  have gr: "guard (topprec r) (OpSym op # ops)" using lt by simp
  from Bin.IH(2) [OF pr gr sr, of "vl # vs"]
  obtain vs2 ops2 where
    run2: "\<And>rest. evalTokens resolve ap (exprTerms r @ rest) (vl # vs) (OpSym op # ops) k1 =
                    evalTokens resolve ap rest vs2 ops2 k2"
    and fl2: "\<And>q. q \<le> topprec r \<Longrightarrow>
                 flush ap q vs2 ops2 = flush ap q (vr # vl # vs) (OpSym op # ops)"
    by auto
  have run: "evalTokens resolve ap (exprTerms (Bin l op r) @ rest) vs ops k =
             evalTokens resolve ap rest vs2 ops2 k'" for rest
    using run1 [of "OperatorTerm op # exprTerms r @ rest"] push run2 [of rest] k' by simp
  have fl: "flush ap q vs2 ops2 = flush ap q (v # vs) ops" if q: "q \<le> precedence op" for q
  proof -
    obtain vs3 ops3 where f3: "flush ap (topprec r) vs2 ops2 = (vs3, ops3)"
      by (cases "flush ap (topprec r) vs2 ops2")
    have qr: "q \<le> topprec r" using q lt by simp
    have "flush ap q vs2 ops2 = flush ap q vs3 ops3"
      using flush_flush [OF qr f3] by simp
    also have "\<dots> = flush ap q (vr # vl # vs) (OpSym op # ops)"
      using flush_flush [OF qr, of ap "vr # vl # vs" "OpSym op # ops" vs3 ops3] fl2 [of "topprec r"] f3
      by simp
    also have "\<dots> = flush ap q (v # vs) ops"
      using q v by (simp add: applyTop_def)
    finally show ?thesis .
  qed
  show ?case using run fl by auto
qed

lemma evaluate_with_expr:
  assumes "spec_tree e" "spec_value resolve ap e 0 = (v, k')"
  shows "evaluate_with resolve ap dflt (exprTerms e) = Inr v"
proof -
  have g: "guard (topprec e) []" by simp
  from evalTokens_expr [OF assms(1) g assms(2), of "[]"]
  obtain vs' ops' where
    run: "\<And>rest. evalTokens resolve ap (exprTerms e @ rest) [] [] 0 =
                   evalTokens resolve ap rest vs' ops' k'"
    and fl: "\<And>q. q \<le> topprec e \<Longrightarrow> flush ap q vs' ops' = flush ap q [v] []"
    by auto
  have e: "evalTokens resolve ap (exprTerms e) [] [] 0 = Inr (vs', ops')"
    using run [of "[]"] by simp
  have "flush ap 0 vs' ops' = ([v], [])" using fl [of 0] by simp
  then have d: "drainOps ap vs' ops' = Inr [v]" by (simp add: drainOps_flush)
  have ne: "exprTerms e \<noteq> []" by (cases e) auto
  show ?thesis
    using e d ne by (simp add: evaluate_with_def leftoverValues_def finalValue_def)
qed

lemma evaluateDist_expr:
  assumes "spec_tree e"
  shows "evaluateDist (exprTerms e) =
         Inr (fst (spec_value (\<lambda>t k. (getTermDistribution t, k)) applyOpDist e 0))"
  unfolding evaluateDist_def
  by (rule evaluate_with_expr [OF assms]) (rule surjective_pairing)

lemma evaluate_expr:
  assumes "spec_tree e"
  shows "evaluate (exprTerms e) m = Inr (fst (spec_value (resolveTerm m) applyOp e 0))"
  unfolding evaluate_def
  by (rule evaluate_with_expr [OF assms]) (rule surjective_pairing)

lemma exprTerms_nonempty: "exprTerms e \<noteq> []"
  by (cases e) auto

lemma calculateStats_expr:
  assumes "spec_tree e"
  shows "calculateStats (exprTerms e) =
     \<lparr>min_stat = fst (spec_value (resolveTerm Min) applyOp e 0),
      max_stat = fst (spec_value (resolveTerm Max) applyOp e 0),
      avg = fst (spec_value (resolveTerm Avg) applyOp e 0),
      avgFloored = jsFloor (fst (spec_value (resolveTerm Avg) applyOp e 0))\<rparr>"
  by (simp add: calculateStats_def exprTerms_nonempty evaluate_expr [OF assms])

text \<open>
  Claim C7. When the counts of the dice terms of a term sequence sum to more than 8,
  \<^verbatim>\<open>calculateProbabilityDistribution\<close> returns the empty sequence, while \<^verbatim>\<open>calculateStats\<close> has no
  such threshold: it returns the three values of \<^verbatim>\<open>evaluate\<close> and the floor of the average.
  For a single dice term with more than 8 dice, and for \<^verbatim>\<open>"9d6"\<close>, the distribution is empty
  and the statistics are 9, 54, 31.5 (and 31). For an expression with more than 8 dice the
  distribution is empty and the statistics are the values of its tree; for \<^verbatim>\<open>"5d6+4d8*2"\<close>,
  with 9 dice, they are 13, 94, 53.5 (and 53).
\<close>

theorem too_many_dice_refused:
  "(totalDice terms > 8 \<longrightarrow> calculateProbabilityDistribution terms = []) \<and>
   (totalDice terms > 8 \<longrightarrow>
      evaluate terms Min = Inr mn \<longrightarrow> evaluate terms Max = Inr mx \<longrightarrow>
      evaluate terms Avg = Inr av \<longrightarrow>
      calculateStats terms = \<lparr>min_stat = mn, max_stat = mx, avg = av, avgFloored = jsFloor av\<rparr>) \<and>
   (8 < c \<longrightarrow>
      calculateProbabilityDistribution [Operand (DiceTerm c s)] = [] \<and>
      calculateStats [Operand (DiceTerm c s)] =
        \<lparr>min_stat = Num (of_int c), max_stat = Num (of_int c * of_int s),
         avg = Num (of_int c * (of_int s + 1) / 2),
         avgFloored = Num (of_int \<lfloor>(of_int c * (of_int s + 1) / 2 :: rat)\<rfloor>)\<rparr>) \<and>
   tokenizeFormula ''9d6'' = Some [Operand (DiceTerm 9 6)] \<and>
   calculateProbabilityDistribution [Operand (DiceTerm 9 6)] = [] \<and>
   calculateStats [Operand (DiceTerm 9 6)] =
     \<lparr>min_stat = Num 9, max_stat = Num 54, avg = Num (63 / 2), avgFloored = Num 31\<rparr> \<and>
   (spec_tree e \<and> totalDice (exprTerms e) > 8 \<longrightarrow>
      calculateProbabilityDistribution (exprTerms e) = [] \<and>
      calculateStats (exprTerms e) =
        \<lparr>min_stat = fst (spec_value (resolveTerm Min) applyOp e 0),
         max_stat = fst (spec_value (resolveTerm Max) applyOp e 0),
         avg = fst (spec_value (resolveTerm Avg) applyOp e 0),
         avgFloored = jsFloor (fst (spec_value (resolveTerm Avg) applyOp e 0))\<rparr>) \<and>
   tokenizeFormula ''5d6+4d8*2'' =
     Some [Operand (DiceTerm 5 6), OperatorTerm Plus, Operand (DiceTerm 4 8), OperatorTerm Times,
           Operand (NumberTerm 2)] \<and>
   calculateProbabilityDistribution
     [Operand (DiceTerm 5 6), OperatorTerm Plus, Operand (DiceTerm 4 8), OperatorTerm Times,
      Operand (NumberTerm 2)] = [] \<and>
   calculateStats
     [Operand (DiceTerm 5 6), OperatorTerm Plus, Operand (DiceTerm 4 8), OperatorTerm Times,
      Operand (NumberTerm 2)] =
     \<lparr>min_stat = Num 13, max_stat = Num 94, avg = Num (107 / 2), avgFloored = Num 53\<rparr>"
proof -
  have g: "spec_tree e \<and> totalDice (exprTerms e) > 8 \<longrightarrow>
      calculateProbabilityDistribution (exprTerms e) = [] \<and>
      calculateStats (exprTerms e) =
        \<lparr>min_stat = fst (spec_value (resolveTerm Min) applyOp e 0),
         max_stat = fst (spec_value (resolveTerm Max) applyOp e 0),
         avg = fst (spec_value (resolveTerm Avg) applyOp e 0),
         avgFloored = jsFloor (fst (spec_value (resolveTerm Avg) applyOp e 0))\<rparr>"
    using calculateStats_expr [of e] by (simp add: calculateProbabilityDistribution_def)
  have h: "tokenizeFormula ''5d6+4d8*2'' =
     Some [Operand (DiceTerm 5 6), OperatorTerm Plus, Operand (DiceTerm 4 8), OperatorTerm Times,
           Operand (NumberTerm 2)]"
    by code_simp
  have i: "calculateProbabilityDistribution
     [Operand (DiceTerm 5 6), OperatorTerm Plus, Operand (DiceTerm 4 8), OperatorTerm Times,
      Operand (NumberTerm 2)] = []"
    by (simp add: calculateProbabilityDistribution_def)
  have j: "calculateStats
     [Operand (DiceTerm 5 6), OperatorTerm Plus, Operand (DiceTerm 4 8), OperatorTerm Times,
      Operand (NumberTerm 2)] =
     \<lparr>min_stat = Num 13, max_stat = Num 94, avg = Num (107 / 2), avgFloored = Num 53\<rparr>"
    by code_simp
  have a: "totalDice terms > 8 \<longrightarrow> calculateProbabilityDistribution terms = []"
    by (simp add: calculateProbabilityDistribution_def)
  have b: "totalDice terms > 8 \<longrightarrow>
      evaluate terms Min = Inr mn \<longrightarrow> evaluate terms Max = Inr mx \<longrightarrow>
      evaluate terms Avg = Inr av \<longrightarrow>
      calculateStats terms = \<lparr>min_stat = mn, max_stat = mx, avg = av, avgFloored = jsFloor av\<rparr>"
    by (auto simp: calculateStats_def)
  have c: "8 < c \<longrightarrow> calculateProbabilityDistribution [Operand (DiceTerm c s)] = []"
    by (simp add: calculateProbabilityDistribution_def)
  have d: "tokenizeFormula ''9d6'' = Some [Operand (DiceTerm 9 6)]"
    by code_simp
  have e: "calculateProbabilityDistribution [Operand (DiceTerm 9 6)] = []"
    by (simp add: calculateProbabilityDistribution_def)
  have f: "calculateStats [Operand (DiceTerm 9 6)] =
     \<lparr>min_stat = Num 9, max_stat = Num 54, avg = Num (63 / 2), avgFloored = Num 31\<rparr>"
    by code_simp
  have k: "8 < c \<longrightarrow>
      calculateProbabilityDistribution [Operand (DiceTerm c s)] = [] \<and>
      calculateStats [Operand (DiceTerm c s)] =
        \<lparr>min_stat = Num (of_int c), max_stat = Num (of_int c * of_int s),
         avg = Num (of_int c * (of_int s + 1) / 2),
         avgFloored = Num (of_int \<lfloor>(of_int c * (of_int s + 1) / 2 :: rat)\<rfloor>)\<rparr>"
    using c calculateStats_single_dice [of c s] by simp
  show ?thesis
    using a b k d e f g h i j by (simp only: simp_thms)
qed

theorem too_many_dice_refused_witness:
  "totalDice [Operand (DiceTerm 9 6)] > 8 \<and>
   calculateProbabilityDistribution [Operand (DiceTerm 9 6)] = [] \<and>
   evaluate [Operand (DiceTerm 9 6)] Min = Inr (Num 9) \<and>
   evaluate [Operand (DiceTerm 9 6)] Max = Inr (Num 54) \<and>
   evaluate [Operand (DiceTerm 9 6)] Avg = Inr (Num (63 / 2)) \<and>
   (8::int) < 9 \<and>
   calculateStats [Operand (DiceTerm 9 6)] =
     \<lparr>min_stat = Num 9, max_stat = Num 54, avg = Num (63 / 2), avgFloored = Num 31\<rparr> \<and>
   spec_tree (Bin (Atom (DiceTerm 5 6)) Plus (Bin (Atom (DiceTerm 4 8)) Times (Atom (NumberTerm 2)))) \<and>
   totalDice (exprTerms
     (Bin (Atom (DiceTerm 5 6)) Plus (Bin (Atom (DiceTerm 4 8)) Times (Atom (NumberTerm 2))))) > 8 \<and>
   calculateProbabilityDistribution (exprTerms
     (Bin (Atom (DiceTerm 5 6)) Plus (Bin (Atom (DiceTerm 4 8)) Times (Atom (NumberTerm 2))))) = [] \<and>
   calculateStats (exprTerms
     (Bin (Atom (DiceTerm 5 6)) Plus (Bin (Atom (DiceTerm 4 8)) Times (Atom (NumberTerm 2))))) =
     \<lparr>min_stat = Num 13, max_stat = Num 94, avg = Num (107 / 2), avgFloored = Num 53\<rparr>"
proof -
  let ?e = "Bin (Atom (DiceTerm 5 6)) Plus (Bin (Atom (DiceTerm 4 8)) Times (Atom (NumberTerm 2)))"
  have e1: "spec_tree ?e" by simp
  have e2: "totalDice (exprTerms ?e) > 8" by simp
  have h: "totalDice [Operand (DiceTerm 9 6)] > 8" by simp
  have mn: "evaluate [Operand (DiceTerm 9 6)] Min = Inr (Num 9)"
    by (simp add: evaluate_single)
  have mx: "evaluate [Operand (DiceTerm 9 6)] Max = Inr (Num 54)"
    by (simp add: evaluate_single)
  have av: "evaluate [Operand (DiceTerm 9 6)] Avg = Inr (Num (63 / 2))"
    by (simp add: evaluate_single)
  note t = too_many_dice_refused [of "[Operand (DiceTerm 9 6)]" "Num 9" "Num 54" "Num (63 / 2)" 9 6 ?e]
  have e3: "calculateProbabilityDistribution (exprTerms ?e) = []"
    using t e1 e2 by blast
  have e4: "calculateStats (exprTerms ?e) =
     \<lparr>min_stat = fst (spec_value (resolveTerm Min) applyOp ?e 0),
      max_stat = fst (spec_value (resolveTerm Max) applyOp ?e 0),
      avg = fst (spec_value (resolveTerm Avg) applyOp ?e 0),
      avgFloored = jsFloor (fst (spec_value (resolveTerm Avg) applyOp ?e 0))\<rparr>"
    using t e1 e2 by blast
  have e5: "calculateStats (exprTerms ?e) =
     \<lparr>min_stat = Num 13, max_stat = Num 94, avg = Num (107 / 2), avgFloored = Num 53\<rparr>"
    unfolding e4 by code_simp
  have d: "calculateProbabilityDistribution [Operand (DiceTerm 9 6)] = []"
    using t h by blast
  have s: "calculateStats [Operand (DiceTerm 9 6)] =
     \<lparr>min_stat = Num 9, max_stat = Num 54, avg = Num (63 / 2), avgFloored = Num 31\<rparr>"
    using t by blast
  have w: "totalDice [Operand (DiceTerm 9 6)] > 8 \<and>
   calculateProbabilityDistribution [Operand (DiceTerm 9 6)] = [] \<and>
   evaluate [Operand (DiceTerm 9 6)] Min = Inr (Num 9) \<and>
   evaluate [Operand (DiceTerm 9 6)] Max = Inr (Num 54) \<and>
   evaluate [Operand (DiceTerm 9 6)] Avg = Inr (Num (63 / 2)) \<and>
   (8::int) < 9 \<and>
   calculateStats [Operand (DiceTerm 9 6)] =
     \<lparr>min_stat = Num 9, max_stat = Num 54, avg = Num (63 / 2), avgFloored = Num 31\<rparr>"
    using h mn mx av d s by simp
  show ?thesis
    using w e1 e2 e3 e5 by (simp only: simp_thms)
qed

text \<open>
  Claim C3. A dice term with count \<open>c\<close> and \<open>s\<close> sides resolves to \<open>c * 1\<close> in the mode
  Min, to \<open>c * s\<close> in the mode Max and to \<open>c * (s + 1) / 2\<close> in the mode Avg; a number term
  resolves to its value in every mode. The statistics of an expression are the values of
  its tree with the terms resolved in this way, those of a single dice term are these three
  values, and \<^verbatim>\<open>avgFloored\<close> is always the floor of \<^verbatim>\<open>avg\<close>. For \<^verbatim>\<open>"3d8+4"\<close> the statistics are
  7, 28, 17.5 and 17.
\<close>

theorem resolveTerm_and_stats:
  "resolveTerm Min (DiceTerm c s) k = (Num (of_int c * 1), k) \<and>
   resolveTerm Max (DiceTerm c s) k = (Num (of_int c * of_int s), k) \<and>
   resolveTerm Avg (DiceTerm c s) k = (Num (of_int c * (of_int s + 1) / 2), k) \<and>
   resolveTerm m (NumberTerm v) k = (Num v, k) \<and>
   (spec_tree e \<longrightarrow>
      calculateStats (exprTerms e) =
        \<lparr>min_stat = fst (spec_value (resolveTerm Min) applyOp e 0),
         max_stat = fst (spec_value (resolveTerm Max) applyOp e 0),
         avg = fst (spec_value (resolveTerm Avg) applyOp e 0),
         avgFloored = jsFloor (fst (spec_value (resolveTerm Avg) applyOp e 0))\<rparr>) \<and>
   calculateStats [Operand (DiceTerm c s)] =
     \<lparr>min_stat = Num (of_int c), max_stat = Num (of_int c * of_int s),
      avg = Num (of_int c * (of_int s + 1) / 2),
      avgFloored = Num (of_int \<lfloor>(of_int c * (of_int s + 1) / 2 :: rat)\<rfloor>)\<rparr> \<and>
   avgFloored (calculateStats terms) = jsFloor (avg (calculateStats terms)) \<and>
   tokenizeFormula ''3d8+4'' =
     Some [Operand (DiceTerm 3 8), OperatorTerm Plus, Operand (NumberTerm 4)] \<and>
   calculateStats [Operand (DiceTerm 3 8), OperatorTerm Plus, Operand (NumberTerm 4)] =
     \<lparr>min_stat = Num 7, max_stat = Num 28, avg = Num (35 / 2), avgFloored = Num 17\<rparr>"
proof -
  have a: "tokenizeFormula ''3d8+4'' =
     Some [Operand (DiceTerm 3 8), OperatorTerm Plus, Operand (NumberTerm 4)]"
    by code_simp
  have b: "calculateStats [Operand (DiceTerm 3 8), OperatorTerm Plus, Operand (NumberTerm 4)] =
     \<lparr>min_stat = Num 7, max_stat = Num 28, avg = Num (35 / 2), avgFloored = Num 17\<rparr>"
    by code_simp
  have r: "resolveTerm Min (DiceTerm c s) k = (Num (of_int c * 1), k) \<and>
   resolveTerm Max (DiceTerm c s) k = (Num (of_int c * of_int s), k) \<and>
   resolveTerm Avg (DiceTerm c s) k = (Num (of_int c * (of_int s + 1) / 2), k) \<and>
   resolveTerm m (NumberTerm v) k = (Num v, k)"
    by simp
  show ?thesis
    using a b r calculateStats_single_dice [of c s] avgFloored_floor [of terms]
      calculateStats_expr [of e]
    by blast
qed

theorem resolveTerm_and_stats_witness:
  "spec_tree (Bin (Atom (DiceTerm 3 8)) Plus (Atom (NumberTerm 4))) \<and>
   exprTerms (Bin (Atom (DiceTerm 3 8)) Plus (Atom (NumberTerm 4))) =
     [Operand (DiceTerm 3 8), OperatorTerm Plus, Operand (NumberTerm 4)] \<and>
   calculateStats [Operand (DiceTerm 3 8), OperatorTerm Plus, Operand (NumberTerm 4)] =
     \<lparr>min_stat = fst (spec_value (resolveTerm Min) applyOp
                        (Bin (Atom (DiceTerm 3 8)) Plus (Atom (NumberTerm 4))) 0),
      max_stat = fst (spec_value (resolveTerm Max) applyOp
                        (Bin (Atom (DiceTerm 3 8)) Plus (Atom (NumberTerm 4))) 0),
      avg = fst (spec_value (resolveTerm Avg) applyOp
                   (Bin (Atom (DiceTerm 3 8)) Plus (Atom (NumberTerm 4))) 0),
      avgFloored = jsFloor (fst (spec_value (resolveTerm Avg) applyOp
                   (Bin (Atom (DiceTerm 3 8)) Plus (Atom (NumberTerm 4))) 0))\<rparr> \<and>
   fst (spec_value (resolveTerm Avg) applyOp
          (Bin (Atom (DiceTerm 3 8)) Plus (Atom (NumberTerm 4))) 0) = Num (35 / 2)"
proof -
  have t: "spec_tree (Bin (Atom (DiceTerm 3 8)) Plus (Atom (NumberTerm 4)))" by simp
  have x: "exprTerms (Bin (Atom (DiceTerm 3 8)) Plus (Atom (NumberTerm 4))) =
     [Operand (DiceTerm 3 8), OperatorTerm Plus, Operand (NumberTerm 4)]"
    by simp
  have v: "fst (spec_value (resolveTerm Avg) applyOp
          (Bin (Atom (DiceTerm 3 8)) Plus (Atom (NumberTerm 4))) 0) = Num (35 / 2)"
    by simp
  have "calculateStats (exprTerms (Bin (Atom (DiceTerm 3 8)) Plus (Atom (NumberTerm 4)))) =
     \<lparr>min_stat = fst (spec_value (resolveTerm Min) applyOp
                        (Bin (Atom (DiceTerm 3 8)) Plus (Atom (NumberTerm 4))) 0),
      max_stat = fst (spec_value (resolveTerm Max) applyOp
                        (Bin (Atom (DiceTerm 3 8)) Plus (Atom (NumberTerm 4))) 0),
      avg = fst (spec_value (resolveTerm Avg) applyOp
                   (Bin (Atom (DiceTerm 3 8)) Plus (Atom (NumberTerm 4))) 0),
      avgFloored = jsFloor (fst (spec_value (resolveTerm Avg) applyOp
                   (Bin (Atom (DiceTerm 3 8)) Plus (Atom (NumberTerm 4))) 0))\<rparr>"
    using t resolveTerm_and_stats [where e = "Bin (Atom (DiceTerm 3 8)) Plus (Atom (NumberTerm 4))"]
    by blast
  then show ?thesis
    using t x v by (simp only: x simp_thms)
qed

lemma evaluate_three_operands:
  assumes "resolveTerm m a 0 = (va, k1)" "resolveTerm m b k1 = (vb, k2)"
    "resolveTerm m c k2 = (vc, k3)"
  shows "evaluate [Operand a, OperatorTerm o1, Operand b, OperatorTerm o2, Operand c] m =
     Inr (if precedence o1 \<ge> precedence o2
          then applyOp o2 (Some vc) (Some (applyOp o1 (Some vb) (Some va)))
          else applyOp o1 (Some (applyOp o2 (Some vc) (Some vb))) (Some va))"
  using assms
  by (simp add: evaluate_def evaluate_with_def leftoverValues_def finalValue_def applyTop_def)

lemma evaluate_parenthesis_left:
  assumes "resolveTerm m a 0 = (va, k1)" "resolveTerm m b k1 = (vb, k2)"
    "resolveTerm m c k2 = (vc, k3)"
  shows "evaluate [ParenthesisTerm LParen, Operand a, OperatorTerm o1, Operand b,
                   ParenthesisTerm RParen, OperatorTerm o2, Operand c] m =
     Inr (applyOp o2 (Some vc) (Some (applyOp o1 (Some vb) (Some va))))"
  using assms
  by (simp add: evaluate_def evaluate_with_def leftoverValues_def finalValue_def applyTop_def)

lemma evaluate_parenthesis_right:
  assumes "resolveTerm m a 0 = (va, k1)" "resolveTerm m b k1 = (vb, k2)"
    "resolveTerm m c k2 = (vc, k3)"
  shows "evaluate [Operand a, OperatorTerm o1, ParenthesisTerm LParen, Operand b,
                   OperatorTerm o2, Operand c, ParenthesisTerm RParen] m =
     Inr (applyOp o1 (Some (applyOp o2 (Some vc) (Some vb))) (Some va))"
  using assms
  by (simp add: evaluate_def evaluate_with_def leftoverValues_def finalValue_def applyTop_def)

lemma stats_2d6_times_2_plus_1d10:
  "tokenizeFormula ''2d6*2+1d10'' =
     Some [Operand (DiceTerm 2 6), OperatorTerm Times, Operand (NumberTerm 2),
           OperatorTerm Plus, Operand (DiceTerm 1 10)] \<and>
   calculateStats
     [Operand (DiceTerm 2 6), OperatorTerm Times, Operand (NumberTerm 2),
      OperatorTerm Plus, Operand (DiceTerm 1 10)] =
     \<lparr>min_stat = Num 5, max_stat = Num 34, avg = Num (39 / 2), avgFloored = Num 19\<rparr>"
  by code_simp

lemma stats_1d6_plus_4_over_2:
  "tokenizeFormula ''(1d6+4)/2'' =
     Some [ParenthesisTerm LParen, Operand (DiceTerm 1 6), OperatorTerm Plus,
           Operand (NumberTerm 4), ParenthesisTerm RParen, OperatorTerm Divide,
           Operand (NumberTerm 2)] \<and>
   calculateStats
     [ParenthesisTerm LParen, Operand (DiceTerm 1 6), OperatorTerm Plus,
      Operand (NumberTerm 4), ParenthesisTerm RParen, OperatorTerm Divide,
      Operand (NumberTerm 2)] =
     \<lparr>min_stat = Num (5 / 2), max_stat = Num 5, avg = Num (15 / 4), avgFloored = Num 3\<rparr>"
  by code_simp

text \<open>
  Claim C2. For every expression, \<^verbatim>\<open>evaluate\<close> on its term sequence returns the value of the
  tree that the precedence rules give it (\<^verbatim>\<open>*\<close> and \<^verbatim>\<open>/\<close> before \<^verbatim>\<open>+\<close> and \<^verbatim>\<open>-\<close>,
  left-associative at equal precedence, a parenthesised group first), in every mode. In
  particular with three operands: of two operators the one of higher precedence is applied
  first, and at equal precedence the left one; parentheses around either pair are applied
  first whatever the precedences. \<open>va\<close>, \<open>vb\<close>, \<open>vc\<close> are the values of the operands in
  the mode (in the mode Roll they are rolled in this order). For \<^verbatim>\<open>"2d6*2+1d10"\<close> the
  minimum is 5 and the maximum 34; for \<^verbatim>\<open>"(1d6+4)/2"\<close> the minimum is 2.5 and the maximum 5.
\<close>

theorem precedence_and_parentheses:
  assumes "resolveTerm m a 0 = (va, k1)" "resolveTerm m b k1 = (vb, k2)"
    "resolveTerm m c k2 = (vc, k3)"
  shows
    "(spec_tree e \<longrightarrow>
        evaluate (exprTerms e) m = Inr (fst (spec_value (resolveTerm m) applyOp e 0))) \<and>
     evaluate [Operand a, OperatorTerm o1, Operand b, OperatorTerm o2, Operand c] m =
       Inr (if precedence o1 \<ge> precedence o2
            then applyOp o2 (Some vc) (Some (applyOp o1 (Some vb) (Some va)))
            else applyOp o1 (Some (applyOp o2 (Some vc) (Some vb))) (Some va)) \<and>
     evaluate [ParenthesisTerm LParen, Operand a, OperatorTerm o1, Operand b,
               ParenthesisTerm RParen, OperatorTerm o2, Operand c] m =
       Inr (applyOp o2 (Some vc) (Some (applyOp o1 (Some vb) (Some va)))) \<and>
     evaluate [Operand a, OperatorTerm o1, ParenthesisTerm LParen, Operand b,
               OperatorTerm o2, Operand c, ParenthesisTerm RParen] m =
       Inr (applyOp o1 (Some (applyOp o2 (Some vc) (Some vb))) (Some va)) \<and>
     tokenizeFormula ''2d6*2+1d10'' =
       Some [Operand (DiceTerm 2 6), OperatorTerm Times, Operand (NumberTerm 2),
             OperatorTerm Plus, Operand (DiceTerm 1 10)] \<and>
     calculateStats
       [Operand (DiceTerm 2 6), OperatorTerm Times, Operand (NumberTerm 2),
        OperatorTerm Plus, Operand (DiceTerm 1 10)] =
       \<lparr>min_stat = Num 5, max_stat = Num 34, avg = Num (39 / 2), avgFloored = Num 19\<rparr> \<and>
     tokenizeFormula ''(1d6+4)/2'' =
       Some [ParenthesisTerm LParen, Operand (DiceTerm 1 6), OperatorTerm Plus,
             Operand (NumberTerm 4), ParenthesisTerm RParen, OperatorTerm Divide,
             Operand (NumberTerm 2)] \<and>
     calculateStats
       [ParenthesisTerm LParen, Operand (DiceTerm 1 6), OperatorTerm Plus,
        Operand (NumberTerm 4), ParenthesisTerm RParen, OperatorTerm Divide,
        Operand (NumberTerm 2)] =
       \<lparr>min_stat = Num (5 / 2), max_stat = Num 5, avg = Num (15 / 4), avgFloored = Num 3\<rparr>"
proof -
  have general: "spec_tree e \<longrightarrow>
      evaluate (exprTerms e) m = Inr (fst (spec_value (resolveTerm m) applyOp e 0))"
    using evaluate_expr by blast
  show ?thesis
    using general evaluate_three_operands [OF assms] evaluate_parenthesis_left [OF assms]
      evaluate_parenthesis_right [OF assms]
      stats_2d6_times_2_plus_1d10 stats_1d6_plus_4_over_2
    by blast
qed

theorem precedence_and_parentheses_witness:
  "resolveTerm Max (DiceTerm 2 6) 0 = (Num 12, 0) \<and>
   resolveTerm Max (NumberTerm 2) 0 = (Num 2, 0) \<and>
   resolveTerm Max (DiceTerm 1 10) 0 = (Num 10, 0) \<and>
   spec_tree (Bin (Bin (Atom (DiceTerm 2 6)) Times (Atom (NumberTerm 2))) Plus
                  (Atom (DiceTerm 1 10))) \<and>
   exprTerms (Bin (Bin (Atom (DiceTerm 2 6)) Times (Atom (NumberTerm 2))) Plus
             (Atom (DiceTerm 1 10))) =
     [Operand (DiceTerm 2 6), OperatorTerm Times, Operand (NumberTerm 2),
      OperatorTerm Plus, Operand (DiceTerm 1 10)] \<and>
   evaluate [Operand (DiceTerm 2 6), OperatorTerm Times, Operand (NumberTerm 2),
             OperatorTerm Plus, Operand (DiceTerm 1 10)] Max = Inr (Num 34) \<and>
   evaluate [Operand (DiceTerm 2 6), OperatorTerm Plus, Operand (NumberTerm 2),
             OperatorTerm Times, Operand (DiceTerm 1 10)] Max = Inr (Num 32) \<and>
   evaluate [Operand (DiceTerm 2 6), OperatorTerm Minus, Operand (NumberTerm 2),
             OperatorTerm Minus, Operand (DiceTerm 1 10)] Max = Inr (Num 0) \<and>
   evaluate [ParenthesisTerm LParen, Operand (DiceTerm 2 6), OperatorTerm Plus,
             Operand (NumberTerm 2), ParenthesisTerm RParen, OperatorTerm Divide,
             Operand (DiceTerm 1 10)] Max = Inr (Num (7 / 5)) \<and>
   evaluate [Operand (DiceTerm 2 6), OperatorTerm Times, ParenthesisTerm LParen,
             Operand (NumberTerm 2), OperatorTerm Plus, Operand (DiceTerm 1 10),
             ParenthesisTerm RParen] Max = Inr (Num 144)"
proof -
  have a: "resolveTerm Max (DiceTerm 2 6) 0 = (Num 12, 0)" by simp
  have b: "resolveTerm Max (NumberTerm 2) 0 = (Num 2, 0)" by simp
  have c: "resolveTerm Max (DiceTerm 1 10) 0 = (Num 10, 0)" by simp
  have t: "spec_tree (Bin (Bin (Atom (DiceTerm 2 6)) Times (Atom (NumberTerm 2))) Plus
                  (Atom (DiceTerm 1 10)))"
    by simp
  have "evaluate (exprTerms (Bin (Bin (Atom (DiceTerm 2 6)) Times (Atom (NumberTerm 2))) Plus
                  (Atom (DiceTerm 1 10)))) Max =
        Inr (fst (spec_value (resolveTerm Max) applyOp
          (Bin (Bin (Atom (DiceTerm 2 6)) Times (Atom (NumberTerm 2))) Plus
                  (Atom (DiceTerm 1 10))) 0))"
    using t precedence_and_parentheses [OF a b c,
        where e = "Bin (Bin (Atom (DiceTerm 2 6)) Times (Atom (NumberTerm 2))) Plus
                  (Atom (DiceTerm 1 10))"]
    by blast
  then have g: "evaluate [Operand (DiceTerm 2 6), OperatorTerm Times, Operand (NumberTerm 2),
             OperatorTerm Plus, Operand (DiceTerm 1 10)] Max = Inr (Num 34)"
    by simp
  show ?thesis
    using a b c t g
      precedence_and_parentheses [OF a b c, where ?o1.0 = Plus and ?o2.0 = Times]
      precedence_and_parentheses [OF a b c, where ?o1.0 = Minus and ?o2.0 = Minus]
      precedence_and_parentheses [OF a b c, where ?o1.0 = Plus and ?o2.0 = Divide]
      precedence_and_parentheses [OF a b c, where ?o1.0 = Times and ?o2.0 = Plus]
    by simp
qed

text \<open>Division by zero and the not-a-number value.\<close>

lemma applyOp_NaN_left: "applyOp op b (Some NaN) = NaN"
  by (cases op; cases b) auto

lemma applyOp_NaN_right: "applyOp op (Some NaN) a = NaN"
  by (cases op; cases a; cases "toNumber a") auto

lemma evaluate_division_by_zero:
  "evaluate [Operand (NumberTerm x), OperatorTerm Divide, Operand (NumberTerm 0),
             OperatorTerm op, Operand (NumberTerm y)] m = Inr NaN"
  by (cases op)
     (simp_all add: evaluate_def evaluate_with_def leftoverValues_def finalValue_def applyTop_def)

lemma fold_combineStep_filter:
  "fold (combineStep Divide e1) dist2 nd =
   fold (combineStep Divide e1) (filter (\<lambda>e2. fst e2 \<noteq> 0) dist2) nd"
  by (induction dist2 arbitrary: nd) (auto simp: combineStep_def)

lemma combineDistributions_zero_dropped:
  "combineDistributions (Some dist1) (Some dist2) Divide =
   combineDistributions (Some dist1) (Some (filter (\<lambda>e2. fst e2 \<noteq> 0) dist2)) Divide"
proof -
  have "(\<lambda>e1 nd. fold (\<lambda>e2 nd'. combineStep Divide e1 e2 nd') dist2 nd) =
        (\<lambda>e1 nd. fold (\<lambda>e2 nd'. combineStep Divide e1 e2 nd')
                    (filter (\<lambda>e2. fst e2 \<noteq> 0) dist2) nd)"
    using fold_combineStep_filter by (intro ext) simp
  then show ?thesis by simp
qed

section \<open>Evaluation of a tokenized formula never throws\<close>

lemma matchDice_not_paren: "matchDice t \<Longrightarrow> t \<noteq> ''('' \<and> t \<noteq> '')''"
  by (auto simp: matchDice_def isDigit_def)

lemma matchNumber_not_paren: "matchNumber t \<Longrightarrow> t \<noteq> ''('' \<and> t \<noteq> '')''"
  by (auto simp: matchNumber_def matchUnsignedNumber_def isDigit_def)

lemma classifyToken_open: "classifyToken ''('' = Some [ParenthesisTerm LParen]"
  by code_simp

lemma classifyToken_close: "classifyToken '')'' = Some [ParenthesisTerm RParen]"
  by code_simp

lemma classifyToken_other:
  assumes "classifyToken t = Some pushed" "t \<noteq> ''(''" "t \<noteq> '')''"
  shows "balanced n (pushed @ r) = balanced n r"
  using assms
  by (auto simp: classifyToken_def split: if_splits option.splits)

lemma parseTokens_balanced:
  "parseTokens n acc toks = Some r \<Longrightarrow> 0 \<le> n \<Longrightarrow> \<exists>r'. r = acc @ r' \<and> balanced n r'"
proof (induction toks arbitrary: n acc)
  case Nil
  then show ?case by (simp split: if_splits)
next
  case (Cons t ts)
  define n' where "n' = (if t = ''('' then n + 1 else if t = '')'' then n - 1 else n)"
  from Cons.prems have nn: "0 \<le> n'"
    by (auto simp: n'_def Let_def split: if_splits)
  from Cons.prems nn obtain pushed where c: "classifyToken t = Some pushed"
    and p: "parseTokens n' (acc @ pushed) ts = Some r"
    by (auto simp: n'_def Let_def split: if_splits option.splits)
  from Cons.IH [OF p nn] obtain r'' where r: "r = (acc @ pushed) @ r''" and b: "balanced n' r''"
    by blast
  have "balanced n (pushed @ r'')"
  proof (cases "t = ''(''")
    case True
    with c b show ?thesis by (auto simp: classifyToken_open n'_def)
  next
    case False
    show ?thesis
    proof (cases "t = '')''")
      case True
      with c b nn show ?thesis by (auto simp: classifyToken_close n'_def)
    next
      case other: False
      with False c b show ?thesis by (simp add: classifyToken_other n'_def)
    qed
  qed
  with r show ?case by simp
qed

lemma tokenizeFormula_balanced: "tokenizeFormula s = Some terms \<Longrightarrow> balanced 0 terms"
  by (auto simp: tokenizeFormula_def Let_def split: if_splits dest: parseTokens_balanced)

lemma rollTerms_balanced:
  "rollTerms rnd k ts = (ts', ds, k') \<Longrightarrow> balanced n ts' = balanced n ts"
proof (induction rnd k ts arbitrary: n ts' ds k' rule: rollTerms.induct, goal_cases)
  case (1 rnd k)
  then show ?case by simp
next
  case (2 rnd k c s ts)
  then show ?case by (auto simp: Let_def split: prod.splits)
next
  case (3 rnd k v ts)
  then show ?case by (auto split: prod.splits)
next
  case (4 rnd k v ts)
  then show ?case by (auto split: prod.splits)
next
  case (5 rnd k v ts)
  then show ?case by (cases v) (auto split: prod.splits)
qed

lemma opens_nonneg: "0 \<le> opens ops"
  by (induction ops rule: opens.induct) auto

lemma closeParen_opens:
  "1 \<le> opens ops \<Longrightarrow>
   \<exists>vs' ops'. closeParen ap vs ops = Inr (vs', ops') \<and> opens ops' = opens ops - 1"
  by (induction ap vs ops rule: closeParen.induct) auto

lemma pushOperator_opens: "opens (snd (pushOperator ap tok vs ops)) = opens ops"
  by (induction ap tok vs ops rule: pushOperator.induct) auto

lemma drainOps_opens: "opens ops = 0 \<Longrightarrow> \<exists>vs'. drainOps ap vs ops = Inr vs'"
proof (induction ap vs ops rule: drainOps.induct)
  case (1 ap vs)
  then show ?case by simp
next
  case (2 ap vs ops)
  then show ?case using opens_nonneg [of ops] by simp
next
  case (3 ap vs op ops)
  then show ?case by simp
qed

lemma evalTokens_balanced:
  "balanced (opens ops) ts \<Longrightarrow>
   \<exists>vs' ops'. evalTokens resolve ap ts vs ops k = Inr (vs', ops') \<and> opens ops' = 0"
proof (induction resolve ap ts vs ops k rule: evalTokens.induct)
  case (1 resolve ap vs ops k)
  then show ?case by simp
next
  case (2 resolve ap t ts vs ops k)
  then show ?case by (auto split: prod.splits)
next
  case (3 resolve ap ts vs ops k)
  then show ?case by (simp add: add.commute)
next
  case (4 resolve ap ts vs ops k)
  then obtain vs' ops' where c: "closeParen ap vs ops = Inr (vs', ops')"
    and o: "opens ops' = opens ops - 1"
    using closeParen_opens [of ops ap vs] by auto
  with 4 show ?case by simp
next
  case (5 resolve ap tok ts vs ops k)
  obtain vs' ops' where p: "pushOperator ap tok vs ops = (vs', ops')"
    by (cases "pushOperator ap tok vs ops")
  then have "opens ops' = opens ops"
    using pushOperator_opens [of ap tok vs ops] by simp
  with 5 p show ?case by simp
qed

lemma evaluate_with_balanced:
  assumes "balanced 0 ts"
  shows "\<exists>v. evaluate_with resolve ap dflt ts = Inr v"
proof -
  from assms have "balanced (opens []) ts" by simp
  then obtain vs' ops' where e: "evalTokens resolve ap ts [] [] 0 = Inr (vs', ops')"
    and o: "opens ops' = 0"
    using evalTokens_balanced by blast
  from o obtain vs'' where "drainOps ap vs' ops' = Inr vs''"
    using drainOps_opens by blast
  with e show ?thesis
    by (simp add: evaluate_with_def leftoverValues_def)
qed

lemma foldl_plus_sum_list: "foldl (+) a xs = a + sum_list (xs :: rat list)"
  by (induction xs arbitrary: a) (auto simp: algebra_simps)

lemma tokenized_evaluate_returns:
  assumes "tokenizeFormula s = Some terms"
  shows "\<exists>v. evaluate terms m = Inr v"
  using evaluate_with_balanced [OF tokenizeFormula_balanced [OF assms],
      where resolve = "resolveTerm m" and ap = applyOp and dflt = "Num 0"]
  unfolding evaluate_def by blast

text \<open>
  Claim C8. In scalar evaluation a division whose right operand is zero gives not-a-number
  whatever the left operand is; an operation with a not-a-number operand gives
  not-a-number, for every operator, and so does the floor; evaluation of a tokenized
  formula returns a value in every mode and never throws, e.g. \<open>x / 0 op y\<close> evaluates to
  not-a-number. In the convolution a pair whose right outcome is zero adds nothing under
  division: the combined distribution is that of the right distribution without its
  zero outcome. A division by a number other than zero is the quotient, and in the
  convolution its pair is counted under the rounded quotient.
\<close>

theorem division_by_zero_policy:
  "applyOp Divide (Some (Num 0)) a = NaN \<and>
   applyOp op b (Some NaN) = NaN \<and>
   applyOp op (Some NaN) a = NaN \<and>
   jsFloor NaN = NaN \<and>
   evaluate [Operand (NumberTerm x), OperatorTerm Divide, Operand (NumberTerm 0),
             OperatorTerm op, Operand (NumberTerm y)] m = Inr NaN \<and>
   (tokenizeFormula s = Some terms \<longrightarrow> (\<exists>v. evaluate terms m = Inr v)) \<and>
   combineStep Divide e1 (0, c2) nd = nd \<and>
   combineDistributions (Some dist1) (Some dist2) Divide =
     combineDistributions (Some dist1) (Some (filter (\<lambda>e2. fst e2 \<noteq> 0) dist2)) Divide \<and>
   (q \<noteq> 0 \<longrightarrow> applyOp Divide (Some (Num q)) (Some (Num p)) = Num (p / q)) \<and>
   (fst e2 \<noteq> 0 \<longrightarrow>
      combineStep Divide e1 e2 nd =
        accumulate (jsRound (fst e1 / fst e2 * 1000000000) / 1000000000) (snd e1 * snd e2) nd)"
proof -
  have f: "q \<noteq> 0 \<longrightarrow> applyOp Divide (Some (Num q)) (Some (Num p)) = Num (p / q)" by simp
  have g: "fst e2 \<noteq> 0 \<longrightarrow>
      combineStep Divide e1 e2 nd =
        accumulate (jsRound (fst e1 / fst e2 * 1000000000) / 1000000000) (snd e1 * snd e2) nd"
    by (simp add: combineStep_def)
  have a: "applyOp Divide (Some (Num 0)) a = NaN" by simp
  have b: "combineStep Divide e1 (0, c2) nd = nd" by (simp add: combineStep_def)
  have c: "tokenizeFormula s = Some terms \<longrightarrow> (\<exists>v. evaluate terms m = Inr v)"
    using tokenized_evaluate_returns by blast
  have d: "jsFloor NaN = NaN" by simp
  show ?thesis
    using a b c d f g applyOp_NaN_left [of op b] applyOp_NaN_right [of op a]
      evaluate_division_by_zero [of x op y m]
      combineDistributions_zero_dropped [of dist1 dist2]
    by blast
qed

theorem division_by_zero_policy_witness:
  "tokenizeFormula ''1/0+5'' =
     Some [Operand (NumberTerm 1), OperatorTerm Divide, Operand (NumberTerm 0),
           OperatorTerm Plus, Operand (NumberTerm 5)] \<and>
   evaluate [Operand (NumberTerm 1), OperatorTerm Divide, Operand (NumberTerm 0),
             OperatorTerm Plus, Operand (NumberTerm 5)] Avg = Inr NaN \<and>
   combineDistributions (Some [(6, 1)]) (Some [(0, 1), (1, 1), (2, 1)]) Divide =
     [(6, 1), (3, 1)] \<and>
   (4::rat) \<noteq> 0 \<and>
   applyOp Divide (Some (Num 4)) (Some (Num 6)) = Num (3 / 2) \<and>
   fst (4::rat, 2::nat) \<noteq> 0 \<and>
   combineStep Divide (6, 3) (4, 2) [(1, 1)] = [(1, 1), (3 / 2, 6)]"
proof -
  have t: "tokenizeFormula ''1/0+5'' =
     Some [Operand (NumberTerm 1), OperatorTerm Divide, Operand (NumberTerm 0),
           OperatorTerm Plus, Operand (NumberTerm 5)]"
    by code_simp
  note p = division_by_zero_policy [where x = 1 and y = 5 and op = Plus and m = Avg
      and s = "''1/0+5''"
      and terms = "[Operand (NumberTerm 1), OperatorTerm Divide, Operand (NumberTerm 0),
                    OperatorTerm Plus, Operand (NumberTerm 5)]"
      and ?dist1.0 = "[(6, 1)]" and ?dist2.0 = "[(0, 1), (1, 1), (2, 1)]"
      and p = 6 and q = 4 and ?e1.0 = "(6, 3)" and ?e2.0 = "(4, 2)" and nd = "[(1, 1)]"]
  have n1: "(4::rat) \<noteq> 0" by simp
  have n2: "fst (4::rat, 2::nat) \<noteq> 0" by simp
  have q1: "applyOp Divide (Some (Num 4)) (Some (Num 6)) = Num (6 / 4)"
    using p n1 by blast
  have q1': "applyOp Divide (Some (Num 4)) (Some (Num 6)) = Num (3 / 2)"
    using q1 by simp
  have q2: "combineStep Divide (6, 3) (4, 2) [(1, 1)] =
     accumulate (jsRound (fst (6::rat, 3::nat) / fst (4::rat, 2::nat) * 1000000000) / 1000000000)
       (snd (6::rat, 3::nat) * snd (4::rat, 2::nat)) [(1, 1)]"
    using p n2 by blast
  have q2': "combineStep Divide (6, 3) (4, 2) [(1, 1)] = [(1, 1), (3 / 2, 6)]"
    unfolding q2 by code_simp
  have e: "evaluate [Operand (NumberTerm 1), OperatorTerm Divide, Operand (NumberTerm 0),
             OperatorTerm Plus, Operand (NumberTerm 5)] Avg = Inr NaN"
    using p by blast
  have "combineDistributions (Some [(6, 1)]) (Some [(0, 1), (1, 1), (2, 1)]) Divide =
     combineDistributions (Some [(6, 1)])
       (Some (filter (\<lambda>e2. fst e2 \<noteq> 0) [(0, 1), (1, 1), (2, 1)])) Divide"
    using p by blast
  also have "\<dots> = [(6, 1), (3, 1)]"
    by code_simp
  finally have cd: "combineDistributions (Some [(6, 1)]) (Some [(0, 1), (1, 1), (2, 1)]) Divide =
     [(6, 1), (3, 1)]" .
  show ?thesis using t e cd n1 n2 q1' q2' by (simp only: simp_thms)
qed

section \<open>Properties of the simulated roll\<close>

text \<open>
  Claim C10. For the term sequence of any accepted formula the modifier reported by
  \<^verbatim>\<open>simulateRoll\<close> is the sum of the values of all its number terms, whatever the dice show;
  the \<^verbatim>\<open>-1\<close> that sign folding puts before a dice term is one of them: \<^verbatim>\<open>"-1d6+3"\<close> is
  tokenized to \<^verbatim>\<open>[-1, *, 1d6, +, 3]\<close> and its modifier is 2.
\<close>

theorem simulateRoll_modifier:
  "(tokenizeFormula s = Some terms \<longrightarrow>
      modifier (simulateRoll rnd terms) = sum_list (numberValues terms)) \<and>
   tokenizeFormula ''-1d6+3'' =
     Some [Operand (NumberTerm (- 1)), OperatorTerm Times, Operand (DiceTerm 1 6),
           OperatorTerm Plus, Operand (NumberTerm 3)] \<and>
   modifier (simulateRoll rnd
     [Operand (NumberTerm (- 1)), OperatorTerm Times, Operand (DiceTerm 1 6),
      OperatorTerm Plus, Operand (NumberTerm 3)]) = 2"
proof -
  have general: "modifier (simulateRoll r ts) = sum_list (numberValues ts)"
    if tok: "tokenizeFormula f = Some ts" for f ts r
  proof (cases "ts = []")
    case True
    then show ?thesis by (simp add: simulateRoll_def)
  next
    case False
    obtain rolled ds used where rt: "rollTerms r 0 ts = (rolled, ds, used)"
      by (cases "rollTerms r 0 ts")
    have "balanced 0 ts" using tok by (rule tokenizeFormula_balanced)
    then have "balanced 0 rolled"
      using rollTerms_balanced [OF rt, of 0] by simp
    then obtain v where "evaluate rolled (Roll (\<lambda>i. r (used + i))) = Inr v"
      using evaluate_with_balanced
        [of rolled "resolveTerm (Roll (\<lambda>i. r (used + i)))" applyOp "Num 0"]
      unfolding evaluate_def by blast
    with False rt show ?thesis
      by (simp add: simulateRoll_def foldl_plus_sum_list)
  qed
  have t: "tokenizeFormula ''-1d6+3'' =
     Some [Operand (NumberTerm (- 1)), OperatorTerm Times, Operand (DiceTerm 1 6),
           OperatorTerm Plus, Operand (NumberTerm 3)]"
    by code_simp
  have "modifier (simulateRoll rnd
     [Operand (NumberTerm (- 1)), OperatorTerm Times, Operand (DiceTerm 1 6),
      OperatorTerm Plus, Operand (NumberTerm 3)]) = 2"
    using general [OF t, of rnd] by simp
  with general t show ?thesis by blast
qed

theorem simulateRoll_modifier_witness:
  "tokenizeFormula ''2d6-1+(4*-1d4)'' =
     Some [Operand (DiceTerm 2 6), OperatorTerm Minus, Operand (NumberTerm 1),
           OperatorTerm Plus, ParenthesisTerm LParen, Operand (NumberTerm 4),
           OperatorTerm Times, Operand (NumberTerm (- 1)), OperatorTerm Times,
           Operand (DiceTerm 1 4), ParenthesisTerm RParen] \<and>
   modifier (simulateRoll (\<lambda>i. 1 / 2)
     [Operand (DiceTerm 2 6), OperatorTerm Minus, Operand (NumberTerm 1),
      OperatorTerm Plus, ParenthesisTerm LParen, Operand (NumberTerm 4),
      OperatorTerm Times, Operand (NumberTerm (- 1)), OperatorTerm Times,
      Operand (DiceTerm 1 4), ParenthesisTerm RParen]) = 4"
proof -
  have t: "tokenizeFormula ''2d6-1+(4*-1d4)'' =
     Some [Operand (DiceTerm 2 6), OperatorTerm Minus, Operand (NumberTerm 1),
           OperatorTerm Plus, ParenthesisTerm LParen, Operand (NumberTerm 4),
           OperatorTerm Times, Operand (NumberTerm (- 1)), OperatorTerm Times,
           Operand (DiceTerm 1 4), ParenthesisTerm RParen]"
    by code_simp
  show ?thesis
    using t simulateRoll_modifier [where s = "''2d6-1+(4*-1d4)''" and rnd = "\<lambda>i. 1 / 2"
      and terms = "[Operand (DiceTerm 2 6), OperatorTerm Minus, Operand (NumberTerm 1),
           OperatorTerm Plus, ParenthesisTerm LParen, Operand (NumberTerm 4),
           OperatorTerm Times, Operand (NumberTerm (- 1)), OperatorTerm Times,
           Operand (DiceTerm 1 4), ParenthesisTerm RParen]"]
    by simp
qed

section \<open>Properties of the distribution engine\<close>


































lemma leftover_generic:
  assumes "leftoverValues resolve ap tokens = Inr (v # w # rest)"
  shows "evaluate_with resolve ap dflt tokens = Inr v"
proof -
  have "tokens \<noteq> []" using assms by (auto simp: leftoverValues_def)
  then show ?thesis using assms by (simp add: evaluate_with_def finalValue_def)
qed

text \<open>
  Claim C9, as stated, fails: \<^verbatim>\<open>"2(1d6)"\<close> passes the tokenizer and leaves two values on the
  stack, the distribution of \<^verbatim>\<open>1d6\<close> on top of that of \<^verbatim>\<open>2\<close>; the result is the distribution
  of \<^verbatim>\<open>1d6\<close> with its six outcomes, not a single-point distribution.
\<close>

theorem leftover_fallback_counterexample:
  "tokenizeFormula ''2(1d6)'' =
     Some [Operand (NumberTerm 2), ParenthesisTerm LParen, Operand (DiceTerm 1 6),
           ParenthesisTerm RParen] \<and>
   leftoverValues (\<lambda>t k. (getTermDistribution t, k)) applyOpDist
     [Operand (NumberTerm 2), ParenthesisTerm LParen, Operand (DiceTerm 1 6),
      ParenthesisTerm RParen] =
     Inr [[(1, 1), (2, 1), (3, 1), (4, 1), (5, 1), (6, 1)], [(2, 1)]] \<and>
   calculateProbabilityDistribution
     [Operand (NumberTerm 2), ParenthesisTerm LParen, Operand (DiceTerm 1 6),
      ParenthesisTerm RParen] =
     [\<lparr>outcome = 1, probability = 1 / 6\<rparr>, \<lparr>outcome = 2, probability = 1 / 6\<rparr>,
      \<lparr>outcome = 3, probability = 1 / 6\<rparr>, \<lparr>outcome = 4, probability = 1 / 6\<rparr>,
      \<lparr>outcome = 5, probability = 1 / 6\<rparr>, \<lparr>outcome = 6, probability = 1 / 6\<rparr>] \<and>
   length (calculateProbabilityDistribution
     [Operand (NumberTerm 2), ParenthesisTerm LParen, Operand (DiceTerm 1 6),
      ParenthesisTerm RParen]) \<noteq> 1"
  by code_simp

text \<open>
  Claim C9, amended. When more than one value is left on the value stack at the end,
  \<^verbatim>\<open>evaluate\<close> in the mode \<^verbatim>\<open>'dist'\<close> does not throw and returns the value on top of the stack,
  the last sub-result computed, whatever distribution that is; with at most 8 dice
  \<^verbatim>\<open>calculateProbabilityDistribution\<close> returns that distribution, normalised.
\<close>

theorem leftover_fallback:
  assumes "leftoverValues (\<lambda>t k. (getTermDistribution t, k)) applyOpDist tokens =
             Inr (v # w # rest)"
  shows "evaluateDist tokens = Inr v \<and>
         (totalDice tokens \<le> 8 \<longrightarrow> calculateProbabilityDistribution tokens = normalise v)"
proof -
  have ne: "tokens \<noteq> []" using assms by (auto simp: leftoverValues_def)
  have e: "evaluateDist tokens = Inr v"
    unfolding evaluateDist_def using assms by (rule leftover_generic)
  with ne show ?thesis by (simp add: calculateProbabilityDistribution_def)
qed

theorem leftover_fallback_witness:
  "leftoverValues (\<lambda>t k. (getTermDistribution t, k)) applyOpDist
     [Operand (NumberTerm 2), ParenthesisTerm LParen, Operand (DiceTerm 1 6),
      ParenthesisTerm RParen] =
     Inr [[(1, 1), (2, 1), (3, 1), (4, 1), (5, 1), (6, 1)], [(2, 1)]] \<and>
   totalDice [Operand (NumberTerm 2), ParenthesisTerm LParen, Operand (DiceTerm 1 6),
      ParenthesisTerm RParen] \<le> 8 \<and>
   evaluateDist [Operand (NumberTerm 2), ParenthesisTerm LParen, Operand (DiceTerm 1 6),
      ParenthesisTerm RParen] = Inr [(1, 1), (2, 1), (3, 1), (4, 1), (5, 1), (6, 1)] \<and>
   calculateProbabilityDistribution
     [Operand (NumberTerm 2), ParenthesisTerm LParen, Operand (DiceTerm 1 6),
      ParenthesisTerm RParen] =
     normalise [(1, 1), (2, 1), (3, 1), (4, 1), (5, 1), (6, 1)]"
proof -
  have l: "leftoverValues (\<lambda>t k. (getTermDistribution t, k)) applyOpDist
     [Operand (NumberTerm 2), ParenthesisTerm LParen, Operand (DiceTerm 1 6),
      ParenthesisTerm RParen] =
     Inr [[(1, 1), (2, 1), (3, 1), (4, 1), (5, 1), (6, 1)], [(2, 1)]]"
    by code_simp
  have d: "totalDice [Operand (NumberTerm 2), ParenthesisTerm LParen, Operand (DiceTerm 1 6),
      ParenthesisTerm RParen] \<le> 8"
    by simp
  show ?thesis
    using l d leftover_fallback [OF l] by blast
qed

end
